theory Spec2Isabelle
  imports Complex_Main "HOL-Library.Log_Nat"
begin

section \<open>Data model\<close>

text \<open>
  The application keeps three state containers (Auth, Products, Sales), each a React
  provider holding plain arrays.  A \<^verbatim>\<open>Date\<close> is a natural number of milliseconds.  The values that the source draws
  from its environment (\<^verbatim>\<open>Date.now()\<close>, \<^verbatim>\<open>Math.random()\<close>, \<^verbatim>\<open>new Date()\<close>)
  are explicit arguments of the operations: a fresh identifier (or a numbered supply of
  them) and the current time.

  Field names are those of the TypeScript interfaces; a field name that occurs in several
  interfaces carries a prefix naming its interface (\<open>prod_id\<close>, \<open>act_id\<close>, \<open>sale_id\<close>, ...).
\<close>

text \<open>
  A JavaScript \<^verbatim>\<open>number\<close> is a finite number, a rational: \<^verbatim>\<open>NaN\<close> and the two
  infinities are not values of the type \<open>number\<close>, so every statement below is about
  finite numbers.  The operations are given with exact arithmetic first (\<open>addStock\<close>,
  \<open>createSale\<close>, \<open>addCreditPayment\<close>, ...).  The operations on which the rounding of
  IEEE doubles bears are given a second time with every arithmetic operation followed by a
  rounding function \<open>fl\<close> (\<open>removeStock_fl\<close>, \<open>createSale_fl\<close>, \<open>addCreditPayment_fl\<close>);
  \<open>round64\<close> is the rounding of binary64, and the exact operations are the rounded ones
  with the identity for \<open>fl\<close> (lemmas \<open>createSale_exact\<close>, \<open>addCreditPayment_exact\<close>).
\<close>

type_synonym number = rat
type_synonym date = nat

text \<open>models/Product.ts\<close>

record Product =
  prod_id :: string
  prod_name :: string
  description :: "string option"
  sku :: "string option"
  price :: number
  costPrice :: number
  stockLevel :: number
  lowStockThreshold :: number
  reorderPoint :: number
  category :: string
  imageUrl :: "string option"
  prod_createdAt :: date
  prod_updatedAt :: date

datatype ActivityType = ADD | REMOVE | ADJUST

record StockActivity =
  act_id :: string
  act_productId :: string
  act_type :: ActivityType
  act_quantity :: number
  reason :: "string option"
  act_date :: date
  performedBy :: string

text \<open>models/Sales.ts\<close>

datatype PaymentStatus = PAID | CREDIT | PARTIAL

text \<open>
  \<^verbatim>\<open>productSnapshot: Partial<Product>\<close>: the four fields that the sales container and
  the cart store.
\<close>

record ProductSnapshot =
  snap_id :: string
  snap_name :: string
  snap_sku :: "string option"
  snap_price :: number

text \<open>
  \<^verbatim>\<open>Omit<SaleItem, "id" | "subtotal">\<close> is the argument type of \<^verbatim>\<open>createSale\<close>;
  \<^verbatim>\<open>SaleItem\<close> extends it by the two omitted fields.
\<close>

record SaleItemData =
  productId :: string
  productSnapshot :: ProductSnapshot
  quantity :: number
  pricePerUnit :: number
  discount :: "number option"

record SaleItem = SaleItemData +
  item_id :: string
  subtotal :: number

record Customer =
  cust_name :: string
  phone :: "string option"
  email :: "string option"

record Sale =
  sale_id :: string
  items :: "SaleItem list"
  totalAmount :: number
  amountPaid :: number
  balance :: number
  paymentStatus :: PaymentStatus
  customer :: "Customer option"
  sale_notes :: "string option"
  soldBy :: string
  sale_createdAt :: date
  sale_updatedAt :: date

record CreditPayment =
  pay_id :: string
  saleId :: string
  amount :: number
  paymentMethod :: string
  receivedBy :: string
  pay_notes :: "string option"
  paymentDate :: date

text \<open>models/User.ts\<close>

datatype UserRole = ADMIN | SALESMAN

record UserPermissions =
  canManageProducts :: bool
  canViewReports :: bool
  canManageUsers :: bool
  canMakeSales :: bool
  canViewInventory :: bool
  canAdjustInventory :: bool
  canViewSales :: bool

record User =
  user_id :: string
  username :: string
  password :: string
  displayName :: string
  role :: UserRole
  permissions :: UserPermissions
  user_createdAt :: date
  user_updatedAt :: date

fun DEFAULT_PERMISSIONS :: "UserRole \<Rightarrow> UserPermissions" where
  "DEFAULT_PERMISSIONS ADMIN =
     \<lparr>canManageProducts = True, canViewReports = True, canManageUsers = True,
      canMakeSales = True, canViewInventory = True, canAdjustInventory = True,
      canViewSales = True\<rparr>"
| "DEFAULT_PERMISSIONS SALESMAN =
     \<lparr>canManageProducts = False, canViewReports = False, canManageUsers = False,
      canMakeSales = True, canViewInventory = True, canAdjustInventory = False,
      canViewSales = True\<rparr>"


section \<open>Array helpers\<close>

text \<open>
  \<^verbatim>\<open>Array.prototype.findIndex\<close>: the index of the first element satisfying the
  predicate; the source's \<^verbatim>\<open>-1\<close> is \<open>None\<close>.  \<^verbatim>\<open>Array.prototype.find\<close> is
  \<^const>\<open>List.find\<close>, whose \<open>None\<close> is the source's \<^verbatim>\<open>undefined\<close>.
\<close>

fun findIndex :: "('a \<Rightarrow> bool) \<Rightarrow> 'a list \<Rightarrow> nat option" where
  "findIndex P [] = None"
| "findIndex P (x # xs) = (if P x then Some 0 else map_option Suc (findIndex P xs))"


section \<open>Products container (context/ProductsContext)\<close>

text \<open>
  The provider's state is the pair of arrays \<^verbatim>\<open>products\<close> and
  \<^verbatim>\<open>stockActivities\<close>.  The flag \<^verbatim>\<open>isLoading\<close> and the copy written to
  AsyncStorage by \<^verbatim>\<open>saveData\<close> (whose errors are caught and logged) influence no
  result below and are left out.
\<close>

record ProductsState =
  products :: "Product list"
  stockActivities :: "StockActivity list"

text \<open>
  Every operation of a provider is a closure created by one render of the provider: the
  names \<^verbatim>\<open>products\<close> and \<^verbatim>\<open>stockActivities\<close> in its body are the constants of
  that render, while \<^verbatim>\<open>setProducts\<close> and \<^verbatim>\<open>setStockActivities\<close> write the
  provider's store.  Each operation therefore takes the render it belongs to (argument
  \<open>render\<close>, read only) and the store (argument \<open>st\<close>, written), and returns its result
  with the new store.  A call made from a screen rendered with the current store has
  \<open>render = st\<close>.  A parameter or local variable of the source whose name is also a
  field name is written with a prime (\<open>productId'\<close>, \<open>quantity'\<close>).
\<close>

definition DEMO_PRODUCTS :: "date \<Rightarrow> Product list" where
  "DEMO_PRODUCTS t0 =
    [\<lparr>prod_id = ''1'', prod_name = ''T-Shirt'', description = Some ''Cotton t-shirt, size M'',
      sku = Some ''TS-001'', price = 1500, costPrice = 1000, stockLevel = 25,
      lowStockThreshold = 10, reorderPoint = 5, category = ''Clothing'', imageUrl = None,
      prod_createdAt = t0, prod_updatedAt = t0\<rparr>,
     \<lparr>prod_id = ''2'', prod_name = ''Jeans'', description = Some ''Blue denim jeans, size 32'',
      sku = Some ''JN-001'', price = 3500, costPrice = 2200, stockLevel = 15,
      lowStockThreshold = 8, reorderPoint = 5, category = ''Clothing'', imageUrl = None,
      prod_createdAt = t0, prod_updatedAt = t0\<rparr>,
     \<lparr>prod_id = ''3'', prod_name = ''Sneakers'', description = Some ''Canvas sneakers, size 42'',
      sku = Some ''SN-001'', price = 4500, costPrice = 3000, stockLevel = 8,
      lowStockThreshold = 10, reorderPoint = 5, category = ''Footwear'', imageUrl = None,
      prod_createdAt = t0, prod_updatedAt = t0\<rparr>]"

text \<open>
  The store after \<^verbatim>\<open>loadData\<close> found nothing in storage: the demo products and an
  empty activity log.
\<close>

definition initialProductsState :: "date \<Rightarrow> ProductsState" where
  "initialProductsState t0 = \<lparr>products = DEMO_PRODUCTS t0, stockActivities = []\<rparr>"

definition createStockActivity ::
  "ActivityType \<Rightarrow> string \<Rightarrow> number \<Rightarrow> string \<Rightarrow> string option \<Rightarrow> string \<Rightarrow> date
    \<Rightarrow> StockActivity" where
  "createStockActivity type' productId' quantity' userId reason' newId now =
     \<lparr>act_id = newId, act_productId = productId', act_type = type', act_quantity = quantity',
      reason = reason', act_date = now, performedBy = userId\<rparr>"

definition addStock ::
  "ProductsState \<Rightarrow> string \<Rightarrow> number \<Rightarrow> string \<Rightarrow> string option \<Rightarrow> string \<Rightarrow> date
    \<Rightarrow> ProductsState \<Rightarrow> bool \<times> ProductsState" where
  "addStock render productId' quantity' userId reason' newId now st =
     (case findIndex (\<lambda>p. prod_id p = productId') (products render) of
        None \<Rightarrow> (False, st)
      | Some index \<Rightarrow>
          let updatedProduct = (products render ! index)
                \<lparr>stockLevel := stockLevel (products render ! index) + quantity',
                 prod_updatedAt := now\<rparr>;
              updatedProducts = (products render)[index := updatedProduct];
              activity = createStockActivity ADD productId' quantity' userId reason' newId now;
              updatedActivities = stockActivities render @ [activity]
          in (True, st\<lparr>products := updatedProducts, stockActivities := updatedActivities\<rparr>))"

definition removeStock ::
  "ProductsState \<Rightarrow> string \<Rightarrow> number \<Rightarrow> string \<Rightarrow> string option \<Rightarrow> string \<Rightarrow> date
    \<Rightarrow> ProductsState \<Rightarrow> bool \<times> ProductsState" where
  "removeStock render productId' quantity' userId reason' newId now st =
     (case findIndex (\<lambda>p. prod_id p = productId') (products render) of
        None \<Rightarrow> (False, st)
      | Some index \<Rightarrow>
          if stockLevel (products render ! index) < quantity' then (False, st)
          else
            let updatedProduct = (products render ! index)
                  \<lparr>stockLevel := stockLevel (products render ! index) - quantity',
                   prod_updatedAt := now\<rparr>;
                updatedProducts = (products render)[index := updatedProduct];
                activity = createStockActivity REMOVE productId' quantity' userId reason' newId now;
                updatedActivities = stockActivities render @ [activity]
            in (True, st\<lparr>products := updatedProducts, stockActivities := updatedActivities\<rparr>))"

definition adjustStock ::
  "ProductsState \<Rightarrow> string \<Rightarrow> number \<Rightarrow> string \<Rightarrow> string option \<Rightarrow> string \<Rightarrow> date
    \<Rightarrow> ProductsState \<Rightarrow> bool \<times> ProductsState" where
  "adjustStock render productId' newQuantity userId reason' newId now st =
     (case findIndex (\<lambda>p. prod_id p = productId') (products render) of
        None \<Rightarrow> (False, st)
      | Some index \<Rightarrow>
          let difference = newQuantity - stockLevel (products render ! index);
              updatedProduct = (products render ! index)
                \<lparr>stockLevel := newQuantity, prod_updatedAt := now\<rparr>;
              updatedProducts = (products render)[index := updatedProduct];
              activity = createStockActivity ADJUST productId' \<bar>difference\<bar> userId reason' newId now;
              updatedActivities = stockActivities render @ [activity]
          in (True, st\<lparr>products := updatedProducts, stockActivities := updatedActivities\<rparr>))"


section \<open>Sales container (context/SalesContext)\<close>

record SalesState =
  sales :: "Sale list"
  creditPayments :: "CreditPayment list"

text \<open>The store after \<^verbatim>\<open>loadData\<close> found nothing in storage.\<close>

definition initialSalesState :: SalesState where
  "initialSalesState = \<lparr>sales = [], creditPayments = []\<rparr>"

text \<open>
  The \<^verbatim>\<open>itemsData.map\<close> of \<^verbatim>\<open>createSale\<close>.  The callback throws when the product
  of an item is not among the render's \<^verbatim>\<open>products\<close>; the exception leaves the whole
  \<^verbatim>\<open>try\<close> block, so the result is \<open>None\<close>.  Item number \<open>k\<close> receives the
  identifier \<open>ids k\<close>.  The expression \<^verbatim>\<open>item.discount || 0\<close> is \<open>0\<close> for an absent
  discount (and for the discount \<open>0\<close>).
\<close>

fun saleItems_of ::
  "Product list \<Rightarrow> (nat \<Rightarrow> string) \<Rightarrow> nat \<Rightarrow> SaleItemData list \<Rightarrow> SaleItem list option" where
  "saleItems_of ps ids k [] = Some []"
| "saleItems_of ps ids k (item # rest) =
     (case find (\<lambda>p. prod_id p = productId item) ps of
        None \<Rightarrow> None
      | Some product \<Rightarrow>
          let subtotal' = quantity item * pricePerUnit item
                            - (case discount item of None \<Rightarrow> 0 | Some d \<Rightarrow> d)
          in (case saleItems_of ps ids (Suc k) rest of
                None \<Rightarrow> None
              | Some its \<Rightarrow>
                  Some (\<lparr>productId = productId item,
                         productSnapshot =
                           \<lparr>snap_id = prod_id product, snap_name = prod_name product,
                            snap_sku = sku product, snap_price = price product\<rparr>,
                         quantity = quantity item, pricePerUnit = pricePerUnit item,
                         discount = discount item, item_id = ids k,
                         subtotal = subtotal'\<rparr> # its)))"

text \<open>
  The \<^verbatim>\<open>for (const item of saleItems)\<close> loop of \<^verbatim>\<open>createSale\<close>.  The function
  \<^verbatim>\<open>removeStock\<close> that the loop calls is the one that \<^verbatim>\<open>useProducts()\<close> returned
  to the render that created this \<^verbatim>\<open>createSale\<close>: every iteration calls the same
  closure, which reads the same \<open>render\<close>, while the store is threaded through.  The
  loop stops at the first call that returns \<^verbatim>\<open>false\<close> (the source throws there).
\<close>

fun removeStock_items ::
  "ProductsState \<Rightarrow> SaleItem list \<Rightarrow> string \<Rightarrow> string option \<Rightarrow> (nat \<Rightarrow> string) \<Rightarrow> nat \<Rightarrow> date
    \<Rightarrow> ProductsState \<Rightarrow> bool \<times> ProductsState" where
  "removeStock_items render [] soldBy' reason' ids k now st = (True, st)"
| "removeStock_items render (item # rest) soldBy' reason' ids k now st =
     (let (success, st') =
            removeStock render (productId item) (quantity item) soldBy' reason' (ids k) now st
      in if \<not> success then (False, st')
         else removeStock_items render rest soldBy' reason' ids (Suc k) now st')"

text \<open>
  \<^verbatim>\<open>createSale\<close>.  Its render consists of the render of the Products provider
  (\<^verbatim>\<open>products\<close>, \<^verbatim>\<open>removeStock\<close>) and its own (\<^verbatim>\<open>sales\<close>); the store is the
  pair of both providers' stores.  With \<open>n\<close> items, the sale's identifier is \<open>ids n\<close> and
  the stock activity of item \<open>k\<close> gets \<open>ids (n + 1 + k)\<close>.  The result \<open>None\<close> is the
  source's \<^verbatim>\<open>null\<close>, returned from the \<^verbatim>\<open>catch\<close> block.
\<close>

definition createSale ::
  "ProductsState \<Rightarrow> SalesState \<Rightarrow> SaleItemData list \<Rightarrow> number \<Rightarrow> string \<Rightarrow> Customer option
    \<Rightarrow> string option \<Rightarrow> (nat \<Rightarrow> string) \<Rightarrow> date \<Rightarrow> ProductsState \<times> SalesState
    \<Rightarrow> Sale option \<times> ProductsState \<times> SalesState" where
  "createSale prender srender itemsData amountPaid' soldBy' customer' notes ids now st =
     (case saleItems_of (products prender) ids 0 itemsData of
        None \<Rightarrow> (None, st)
      | Some saleItems \<Rightarrow>
          let totalAmount' = foldl (\<lambda>acc item. acc + subtotal item) 0 saleItems;
              paymentStatus' =
                (if amountPaid' < totalAmount'
                 then (if amountPaid' = 0 then CREDIT else PARTIAL) else PAID);
              newSale =
                \<lparr>sale_id = ids (length itemsData), items = saleItems,
                 totalAmount = totalAmount', amountPaid = amountPaid',
                 balance = totalAmount' - amountPaid', paymentStatus = paymentStatus',
                 customer = customer', sale_notes = notes, soldBy = soldBy',
                 sale_createdAt = now, sale_updatedAt = now\<rparr>;
              (success, pst) =
                removeStock_items prender saleItems soldBy' (Some (''Sale: '' @ sale_id newSale))
                  ids (Suc (length itemsData)) now (fst st)
          in if \<not> success then (None, pst, snd st)
             else (Some newSale, pst, (snd st)\<lparr>sales := sales srender @ [newSale]\<rparr>))"

definition addCreditPayment ::
  "SalesState \<Rightarrow> string \<Rightarrow> number \<Rightarrow> string \<Rightarrow> string \<Rightarrow> string option \<Rightarrow> string \<Rightarrow> date
    \<Rightarrow> SalesState \<Rightarrow> CreditPayment option \<times> SalesState" where
  "addCreditPayment render saleId' amount' receivedBy' paymentMethod' notes newId now st =
     (case findIndex (\<lambda>s. sale_id s = saleId') (sales render) of
        None \<Rightarrow> (None, st)
      | Some saleIndex \<Rightarrow>
          let sale = sales render ! saleIndex
          in if amount' \<le> 0 \<or> amount' > balance sale then (None, st)
             else
               let payment =
                     \<lparr>pay_id = newId, saleId = saleId', amount = amount',
                      paymentMethod = paymentMethod', receivedBy = receivedBy',
                      pay_notes = notes, paymentDate = now\<rparr>;
                   updatedSale = sale
                     \<lparr>amountPaid := amountPaid sale + amount',
                      balance := balance sale - amount',
                      paymentStatus :=
                        (if balance sale - amount' \<le> 1 / 1000 then PAID else PARTIAL),
                      sale_updatedAt := now\<rparr>;
                   updatedSales = (sales render)[saleIndex := updatedSale];
                   updatedPayments = creditPayments render @ [payment]
               in (Some payment,
                   st\<lparr>sales := updatedSales, creditPayments := updatedPayments\<rparr>))"


section \<open>Auth container (context/AuthContext)\<close>

definition DEMO_USERS :: "date \<Rightarrow> User list" where
  "DEMO_USERS t0 =
    [\<lparr>user_id = ''1'', username = ''admin'', password = ''admin123'',
      displayName = ''Admin User'', role = ADMIN, permissions = DEFAULT_PERMISSIONS ADMIN,
      user_createdAt = t0, user_updatedAt = t0\<rparr>,
     \<lparr>user_id = ''2'', username = ''sales'', password = ''sales123'',
      displayName = ''Sales Staff'', role = SALESMAN,
      permissions = DEFAULT_PERMISSIONS SALESMAN,
      user_createdAt = t0, user_updatedAt = t0\<rparr>]"

text \<open>
  \<^verbatim>\<open>login\<close>.  The only effect of AsyncStorage that reaches the result is whether
  \<^verbatim>\<open>setItem\<close> throws: \<open>storageOk\<close> says that it does not.  The store is the
  provider's \<^verbatim>\<open>user\<close>, \<open>None\<close> for \<^verbatim>\<open>null\<close>.
\<close>

definition login ::
  "date \<Rightarrow> string \<Rightarrow> string \<Rightarrow> bool \<Rightarrow> User option \<Rightarrow> bool \<times> User option" where
  "login t0 username' password' storageOk user =
     (case find (\<lambda>u. username u = username' \<and> password u = password') (DEMO_USERS t0) of
        Some foundUser \<Rightarrow> if storageOk then (True, Some foundUser) else (False, user)
      | None \<Rightarrow> (False, user))"


section \<open>Arithmetic of IEEE doubles\<close>

text \<open>
  \<open>binade x\<close> is the exponent \<open>e\<close> with \<open>2\<^sup>e \<le> |x| < 2\<^sup>e\<^sup>+\<^sup>1\<close>, found from the bit lengths
  of the numerator and the denominator of \<open>|x|\<close>.
\<close>

definition binade :: "rat \<Rightarrow> int" where
  "binade x =
     (let (n, d) = quotient_of \<bar>x\<bar>;
          e0 = int (floorlog 2 (nat n)) - int (floorlog 2 (nat d))
      in if 2 powi e0 \<le> \<bar>x\<bar> then e0 else e0 - 1)"

text \<open>
  \<open>round64 x\<close> is the binary64 number nearest to \<open>x\<close>: the significand has 53 bits, so
  \<open>|x|\<close> is measured in units of \<open>2\<^sup>e\<^sup>-\<^sup>5\<^sup>2\<close> and rounded to the nearest integer number of
  units, a tie going to the even one.  This is the result of an IEEE operation whose exact
  result is \<open>x\<close>, for \<open>x\<close> in the range of the normal doubles
  (\<open>2\<^sup>-\<^sup>1\<^sup>0\<^sup>2\<^sup>2 \<le> |x| < 2\<^sup>1\<^sup>0\<^sup>2\<^sup>4\<close>) and for \<open>x = 0\<close>; overflow to infinity and the coarser
  spacing of the subnormal numbers are not represented.
\<close>

definition round64 :: "rat \<Rightarrow> rat" where
  "round64 x =
     (if x = 0 then 0
      else
        let ulp = 2 powi (binade x - 52);
            m = \<bar>x\<bar> / ulp;
            f = \<lfloor>m\<rfloor>;
            r = (if m - of_int f < 1 / 2 then f
                 else if 1 / 2 < m - of_int f then f + 1
                 else if even f then f else f + 1)
        in sgn x * of_int r * ulp)"

text \<open>
  The operations of the two containers that compute stock levels and amounts, with every
  arithmetic operation of the source followed by \<open>fl\<close>.  They differ from
  \<open>saleItems_of\<close>, \<open>removeStock\<close>, \<open>removeStock_items\<close>, \<open>createSale\<close> and
  \<open>addCreditPayment\<close> in nothing else.  The literal \<^verbatim>\<open>0.001\<close> is the rounded
  \<open>1 / 1000\<close>.
\<close>

fun saleItems_of_fl ::
  "(number \<Rightarrow> number) \<Rightarrow> Product list \<Rightarrow> (nat \<Rightarrow> string) \<Rightarrow> nat \<Rightarrow> SaleItemData list
    \<Rightarrow> SaleItem list option" where
  "saleItems_of_fl fl ps ids k [] = Some []"
| "saleItems_of_fl fl ps ids k (item # rest) =
     (case find (\<lambda>p. prod_id p = productId item) ps of
        None \<Rightarrow> None
      | Some product \<Rightarrow>
          let subtotal' = fl (fl (quantity item * pricePerUnit item)
                            - (case discount item of None \<Rightarrow> 0 | Some d \<Rightarrow> d))
          in (case saleItems_of_fl fl ps ids (Suc k) rest of
                None \<Rightarrow> None
              | Some its \<Rightarrow>
                  Some (\<lparr>productId = productId item,
                         productSnapshot =
                           \<lparr>snap_id = prod_id product, snap_name = prod_name product,
                            snap_sku = sku product, snap_price = price product\<rparr>,
                         quantity = quantity item, pricePerUnit = pricePerUnit item,
                         discount = discount item, item_id = ids k,
                         subtotal = subtotal'\<rparr> # its)))"

definition removeStock_fl ::
  "(number \<Rightarrow> number) \<Rightarrow> ProductsState \<Rightarrow> string \<Rightarrow> number \<Rightarrow> string \<Rightarrow> string option
    \<Rightarrow> string \<Rightarrow> date \<Rightarrow> ProductsState \<Rightarrow> bool \<times> ProductsState" where
  "removeStock_fl fl render productId' quantity' userId reason' newId now st =
     (case findIndex (\<lambda>p. prod_id p = productId') (products render) of
        None \<Rightarrow> (False, st)
      | Some index \<Rightarrow>
          if stockLevel (products render ! index) < quantity' then (False, st)
          else
            let updatedProduct = (products render ! index)
                  \<lparr>stockLevel := fl (stockLevel (products render ! index) - quantity'),
                   prod_updatedAt := now\<rparr>;
                updatedProducts = (products render)[index := updatedProduct];
                activity = createStockActivity REMOVE productId' quantity' userId reason' newId now;
                updatedActivities = stockActivities render @ [activity]
            in (True, st\<lparr>products := updatedProducts, stockActivities := updatedActivities\<rparr>))"

fun removeStock_items_fl ::
  "(number \<Rightarrow> number) \<Rightarrow> ProductsState \<Rightarrow> SaleItem list \<Rightarrow> string \<Rightarrow> string option
    \<Rightarrow> (nat \<Rightarrow> string) \<Rightarrow> nat \<Rightarrow> date \<Rightarrow> ProductsState \<Rightarrow> bool \<times> ProductsState" where
  "removeStock_items_fl fl render [] soldBy' reason' ids k now st = (True, st)"
| "removeStock_items_fl fl render (item # rest) soldBy' reason' ids k now st =
     (let (success, st') =
            removeStock_fl fl render (productId item) (quantity item) soldBy' reason' (ids k)
              now st
      in if \<not> success then (False, st')
         else removeStock_items_fl fl render rest soldBy' reason' ids (Suc k) now st')"

definition createSale_fl ::
  "(number \<Rightarrow> number) \<Rightarrow> ProductsState \<Rightarrow> SalesState \<Rightarrow> SaleItemData list \<Rightarrow> number \<Rightarrow> string
    \<Rightarrow> Customer option \<Rightarrow> string option \<Rightarrow> (nat \<Rightarrow> string) \<Rightarrow> date
    \<Rightarrow> ProductsState \<times> SalesState \<Rightarrow> Sale option \<times> ProductsState \<times> SalesState" where
  "createSale_fl fl prender srender itemsData amountPaid' soldBy' customer' notes ids now st =
     (case saleItems_of_fl fl (products prender) ids 0 itemsData of
        None \<Rightarrow> (None, st)
      | Some saleItems \<Rightarrow>
          let totalAmount' = foldl (\<lambda>acc item. fl (acc + subtotal item)) 0 saleItems;
              paymentStatus' =
                (if amountPaid' < totalAmount'
                 then (if amountPaid' = 0 then CREDIT else PARTIAL) else PAID);
              newSale =
                \<lparr>sale_id = ids (length itemsData), items = saleItems,
                 totalAmount = totalAmount', amountPaid = amountPaid',
                 balance = fl (totalAmount' - amountPaid'), paymentStatus = paymentStatus',
                 customer = customer', sale_notes = notes, soldBy = soldBy',
                 sale_createdAt = now, sale_updatedAt = now\<rparr>;
              (success, pst) =
                removeStock_items_fl fl prender saleItems soldBy'
                  (Some (''Sale: '' @ sale_id newSale)) ids (Suc (length itemsData)) now (fst st)
          in if \<not> success then (None, pst, snd st)
             else (Some newSale, pst, (snd st)\<lparr>sales := sales srender @ [newSale]\<rparr>))"

definition addCreditPayment_fl ::
  "(number \<Rightarrow> number) \<Rightarrow> SalesState \<Rightarrow> string \<Rightarrow> number \<Rightarrow> string \<Rightarrow> string \<Rightarrow> string option
    \<Rightarrow> string \<Rightarrow> date \<Rightarrow> SalesState \<Rightarrow> CreditPayment option \<times> SalesState" where
  "addCreditPayment_fl fl render saleId' amount' receivedBy' paymentMethod' notes newId now st =
     (case findIndex (\<lambda>s. sale_id s = saleId') (sales render) of
        None \<Rightarrow> (None, st)
      | Some saleIndex \<Rightarrow>
          let sale = sales render ! saleIndex
          in if amount' \<le> 0 \<or> amount' > balance sale then (None, st)
             else
               let payment =
                     \<lparr>pay_id = newId, saleId = saleId', amount = amount',
                      paymentMethod = paymentMethod', receivedBy = receivedBy',
                      pay_notes = notes, paymentDate = now\<rparr>;
                   updatedSale = sale
                     \<lparr>amountPaid := fl (amountPaid sale + amount'),
                      balance := fl (balance sale - amount'),
                      paymentStatus :=
                        (if fl (balance sale - amount') \<le> fl (1 / 1000) then PAID else PARTIAL),
                      sale_updatedAt := now\<rparr>;
                   updatedSales = (sales render)[saleIndex := updatedSale];
                   updatedPayments = creditPayments render @ [payment]
               in (Some payment,
                   st\<lparr>sales := updatedSales, creditPayments := updatedPayments\<rparr>))"

text \<open>
  The sales stores that a sequence of \<^verbatim>\<open>createSale\<close> and \<^verbatim>\<open>addCreditPayment\<close>
  calls reaches from the empty store.  Each call is made from a render of the current
  store; the products store that \<^verbatim>\<open>createSale\<close> sees is arbitrary.
\<close>

inductive reachableSales_fl :: "(number \<Rightarrow> number) \<Rightarrow> SalesState \<Rightarrow> bool"
  for fl :: "number \<Rightarrow> number" where
  initial: "reachableSales_fl fl initialSalesState"
| createSale:
    "reachableSales_fl fl sst \<Longrightarrow>
     reachableSales_fl fl
       (snd (snd (createSale_fl fl pst sst itemsData ap sb c n ids t (pst, sst))))"
| addCreditPayment:
    "reachableSales_fl fl sst \<Longrightarrow>
     reachableSales_fl fl (snd (addCreditPayment_fl fl sst sid amt rb pm n i t sst))"


section \<open>The new-sale screen (app/sales/new.tsx)\<close>

text \<open>
  The item that \<^verbatim>\<open>handleFinalizeSale\<close> (app/sales/new.tsx) passes to
  \<^verbatim>\<open>createSale\<close> for a cart entry: the entry made by \<^verbatim>\<open>handleAddProductToCart\<close>
  for a product, with the quantity chosen in the cart.  The cart never sets a discount.
\<close>

definition cartSaleItem :: "Product \<Rightarrow> number \<Rightarrow> SaleItemData" where
  "cartSaleItem product quantity' =
     \<lparr>productId = prod_id product,
      productSnapshot = \<lparr>snap_id = prod_id product, snap_name = prod_name product,
                         snap_sku = sku product, snap_price = price product\<rparr>,
      quantity = quantity', pricePerUnit = price product, discount = None\<rparr>"


section \<open>A session on the demo data\<close>

text \<open>
  Concrete calls, used to run the operations: a supply of identifiers; a sale made from
  the first render after start-up (demo products, no sales) by user 2 at time 1; and a
  credit payment, at time 2, made from the render that follows the sale of one T-shirt
  with 500 paid.  For the arithmetic of doubles: the demo products after the price of the
  T-shirt has been set to 10, the sale of one such T-shirt with 3.1 paid, and the payment
  of 2.1 made from the render that follows it; 3.1 and 2.1 are the doubles that
  \<^verbatim>\<open>parseFloat\<close> returns for these inputs.
\<close>

definition demoIds :: "nat \<Rightarrow> string" where
  "demoIds k = ''id'' @ replicate k (CHR ''+'')"

definition demoSale ::
  "SaleItemData list \<Rightarrow> number \<Rightarrow> Sale option \<times> ProductsState \<times> SalesState" where
  "demoSale itemsData paid =
     createSale (initialProductsState 0) initialSalesState itemsData paid ''2'' None None
       demoIds 1 (initialProductsState 0, initialSalesState)"

definition demoPayment :: "string \<Rightarrow> number \<Rightarrow> CreditPayment option \<times> SalesState" where
  "demoPayment saleId' amount' =
     addCreditPayment (snd (snd (demoSale [cartSaleItem (hd (DEMO_PRODUCTS 0)) 1] 500)))
       saleId' amount' ''2'' ''cash'' None ''p1'' 2
       (snd (snd (demoSale [cartSaleItem (hd (DEMO_PRODUCTS 0)) 1] 500)))"


definition demoProducts10 :: ProductsState where
  "demoProducts10 =
     \<lparr>products = (DEMO_PRODUCTS 0)[0 := (hd (DEMO_PRODUCTS 0))\<lparr>price := 10\<rparr>],
      stockActivities = []\<rparr>"

definition demoSale64 :: "Sale option \<times> ProductsState \<times> SalesState" where
  "demoSale64 =
     createSale_fl round64 demoProducts10 initialSalesState
       [cartSaleItem (hd (products demoProducts10)) 1] (round64 (31 / 10)) ''2'' None None
       demoIds 1 (demoProducts10, initialSalesState)"

definition demoPayment64 :: "CreditPayment option \<times> SalesState" where
  "demoPayment64 =
     addCreditPayment_fl round64 (snd (snd demoSale64)) ''id+'' (round64 (21 / 10)) ''2''
       ''cash'' None ''p1'' 2 (snd (snd demoSale64))"


section \<open>Facts about the array helpers\<close>

lemma findIndex_Some:
  "findIndex P xs = Some i \<Longrightarrow> i < length xs \<and> P (xs ! i) \<and> (\<forall>j<i. \<not> P (xs ! j))"
proof (induction xs arbitrary: i)
  case Nil
  then show ?case by simp
next
  case (Cons x xs)
  show ?case
  proof (cases "P x")
    case True
    with Cons.prems show ?thesis by simp
  next
    case False
    with Cons.prems obtain k where k: "findIndex P xs = Some k" "i = Suc k"
      by auto
    from Cons.IH [OF k(1)] False k(2) show ?thesis
      by (auto simp: nth_Cons split: nat.splits)
  qed
qed

lemma findIndex_None: "findIndex P xs = None \<longleftrightarrow> (\<forall>x\<in>set xs. \<not> P x)"
  by (induction xs) auto


lemma ball_set_update:
  assumes "\<forall>x\<in>set xs. P x" and "P y"
  shows "\<forall>x\<in>set (xs[i := y]). P x"
  using assms set_update_subset_insert [of xs i y] by auto


section \<open>Stock levels stay non-negative\<close>

lemma stock_update:
  assumes "\<forall>p\<in>set ps. 0 \<le> stockLevel p" and "0 \<le> stockLevel q"
  shows "\<forall>p\<in>set (ps[i := q]). 0 \<le> stockLevel p"
  using assms set_update_subset_insert [of ps i q] by auto

lemma removeStock_stock:
  assumes "\<forall>p\<in>set (products render). 0 \<le> stockLevel p"
    and "\<forall>p\<in>set (products st). 0 \<le> stockLevel p"
  shows "\<forall>p\<in>set (products (snd (removeStock render pid q uid r i t st))). 0 \<le> stockLevel p"
proof (cases "findIndex (\<lambda>p. prod_id p = pid) (products render)")
  case None
  with assms(2) show ?thesis by (simp add: removeStock_def)
next
  case (Some idx)
  show ?thesis
  proof (cases "stockLevel (products render ! idx) < q")
    case True
    with Some assms(2) show ?thesis by (simp add: removeStock_def)
  next
    case False
    then have "0 \<le> stockLevel ((products render ! idx)
        \<lparr>stockLevel := stockLevel (products render ! idx) - q, prod_updatedAt := t\<rparr>)"
      by simp
    from stock_update [OF assms(1) this] Some False show ?thesis
      by (simp add: removeStock_def Let_def)
  qed
qed

lemma removeStock_items_stock:
  assumes "\<forall>p\<in>set (products render). 0 \<le> stockLevel p"
    and "\<forall>p\<in>set (products st). 0 \<le> stockLevel p"
  shows "\<forall>p\<in>set (products (snd (removeStock_items render its sb r ids k t st))).
           0 \<le> stockLevel p"
  using assms(2)
proof (induction its arbitrary: k st)
  case Nil
  then show ?case by simp
next
  case (Cons item rest)
  let ?r = "removeStock render (productId item) (quantity item) sb r (ids k) t st"
  have step: "\<forall>p\<in>set (products (snd ?r)). 0 \<le> stockLevel p"
    by (rule removeStock_stock [OF assms(1) Cons.prems])
  show ?case
  proof (cases "fst ?r")
    case True
    with Cons.IH [OF step, of "Suc k"] show ?thesis
      by (simp add: case_prod_beta)
  next
    case False
    with step show ?thesis by (simp add: case_prod_beta)
  qed
qed

lemma createSale_stock:
  assumes "\<forall>p\<in>set (products pst). 0 \<le> stockLevel p"
  shows "\<forall>p\<in>set (products (fst (snd
            (createSale pst sst itemsData ap sb c n ids t (pst, sst))))). 0 \<le> stockLevel p"
proof (cases "saleItems_of (products pst) ids 0 itemsData")
  case None
  with assms show ?thesis by (simp add: createSale_def)
next
  case (Some its)
  from removeStock_items_stock [OF assms assms] Some show ?thesis
    by (simp add: createSale_def Let_def case_prod_beta)
qed

lemma addStock_stock:
  assumes "\<forall>p\<in>set (products st). 0 \<le> stockLevel p"
  shows "(\<forall>p\<in>set (products (snd (addStock st pid q uid r i t st))). 0 \<le> stockLevel p)
     \<longleftrightarrow> (case findIndex (\<lambda>p. prod_id p = pid) (products st) of
            None \<Rightarrow> True | Some idx \<Rightarrow> 0 \<le> stockLevel (products st ! idx) + q)"
proof (cases "findIndex (\<lambda>p. prod_id p = pid) (products st)")
  case None
  with assms show ?thesis by (simp add: addStock_def)
next
  case (Some idx)
  let ?u = "(products st ! idx)
    \<lparr>stockLevel := stockLevel (products st ! idx) + q, prod_updatedAt := t\<rparr>"
  from findIndex_Some [OF Some] have len: "idx < length (products st)" by simp
  have "(\<forall>p\<in>set ((products st)[idx := ?u]). 0 \<le> stockLevel p) \<longleftrightarrow> 0 \<le> stockLevel ?u"
    using stock_update [OF assms, of ?u idx] set_update_memI [OF len, of ?u] by blast
  with Some show ?thesis by (simp add: addStock_def Let_def)
qed

lemma adjustStock_stock:
  assumes "\<forall>p\<in>set (products st). 0 \<le> stockLevel p"
  shows "(\<forall>p\<in>set (products (snd (adjustStock st pid nq uid r i t st))). 0 \<le> stockLevel p)
     \<longleftrightarrow> (findIndex (\<lambda>p. prod_id p = pid) (products st) = None \<or> 0 \<le> nq)"
proof (cases "findIndex (\<lambda>p. prod_id p = pid) (products st)")
  case None
  with assms show ?thesis by (simp add: adjustStock_def)
next
  case (Some idx)
  let ?u = "(products st ! idx)\<lparr>stockLevel := nq, prod_updatedAt := t\<rparr>"
  from findIndex_Some [OF Some] have len: "idx < length (products st)" by simp
  have "(\<forall>p\<in>set ((products st)[idx := ?u]). 0 \<le> stockLevel p) \<longleftrightarrow> 0 \<le> stockLevel ?u"
    using stock_update [OF assms, of ?u idx] set_update_memI [OF len, of ?u] by blast
  with Some show ?thesis by (simp add: adjustStock_def Let_def)
qed

lemma removeStock_refuses:
  assumes "findIndex (\<lambda>p. prod_id p = pid) (products st) = Some idx"
    and "stockLevel (products st ! idx) < q"
  shows "removeStock st pid q uid r i t st = (False, st)"
  using assms by (simp add: removeStock_def)

text \<open>
  Claim C1 as the spec states it: after any of \<^verbatim>\<open>addStock\<close>, \<^verbatim>\<open>removeStock\<close>,
  \<^verbatim>\<open>adjustStock\<close> and \<^verbatim>\<open>createSale\<close> with arbitrary arguments every stock level is
  still non-negative.  It fails for \<^verbatim>\<open>addStock\<close> and \<^verbatim>\<open>adjustStock\<close>, which apply
  the number they are given without a check: on the demo products (stock levels 25, 15, 8),
  setting the stock of product 1 to \<open>-1\<close> succeeds, and so does adding \<open>-30\<close> to it.
\<close>

theorem stockLevel_negative_counterexample:
  "map stockLevel (products (initialProductsState 0)) = [25, 15, 8]
   \<and> fst (adjustStock (initialProductsState 0) ''1'' (- 1) ''1'' None ''a1'' 1
            (initialProductsState 0))
   \<and> map stockLevel (products (snd (adjustStock (initialProductsState 0) ''1'' (- 1) ''1'' None
            ''a1'' 1 (initialProductsState 0)))) = [- 1, 15, 8]
   \<and> fst (addStock (initialProductsState 0) ''1'' (- 30) ''1'' None ''a1'' 1
            (initialProductsState 0))
   \<and> map stockLevel (products (snd (addStock (initialProductsState 0) ''1'' (- 30) ''1'' None
            ''a1'' 1 (initialProductsState 0)))) = [- 5, 15, 8]"
  by (simp add: initialProductsState_def DEMO_PRODUCTS_def adjustStock_def addStock_def
      createStockActivity_def Let_def)

text \<open>
  Claim C1, amended.  All numbers are finite (\<^verbatim>\<open>NaN\<close>, for which the guard of
  \<^verbatim>\<open>removeStock\<close> is false, is not a value of the model); lemma
  \<open>stockLevel_nonneg_doubles\<close> below shows that rounding to doubles changes nothing for
  \<^verbatim>\<open>removeStock\<close> and \<^verbatim>\<open>createSale\<close>.  From a store in which every
  stock level is non-negative, and for a call made from a render of that store:
  \<^item> \<^verbatim>\<open>removeStock\<close> and \<^verbatim>\<open>createSale\<close> with any finite quantities leave every
    stock level non-negative;
  \<^item> \<^verbatim>\<open>addStock\<close> does so exactly when the product is unknown or its stock level plus
    the quantity is non-negative;
  \<^item> \<^verbatim>\<open>adjustStock\<close> does so exactly when the product is unknown or the new quantity
    is non-negative;
  \<^item> \<^verbatim>\<open>removeStock\<close> returns \<^verbatim>\<open>false\<close> and changes nothing when the quantity
    exceeds the current stock level of the product.
\<close>

theorem stockLevel_nonneg_preserved:
  assumes "\<forall>p\<in>set (products st). 0 \<le> stockLevel p"
  shows "(\<forall>p\<in>set (products (snd (removeStock st pid q uid r i t st))). 0 \<le> stockLevel p)
    \<and> (\<forall>p\<in>set (products (fst (snd (createSale st sst itemsData ap sb c n ids t (st, sst))))).
          0 \<le> stockLevel p)
    \<and> ((\<forall>p\<in>set (products (snd (addStock st pid q uid r i t st))). 0 \<le> stockLevel p)
         \<longleftrightarrow> (case findIndex (\<lambda>p. prod_id p = pid) (products st) of
                None \<Rightarrow> True | Some idx \<Rightarrow> 0 \<le> stockLevel (products st ! idx) + q))
    \<and> ((\<forall>p\<in>set (products (snd (adjustStock st pid q uid r i t st))). 0 \<le> stockLevel p)
         \<longleftrightarrow> (findIndex (\<lambda>p. prod_id p = pid) (products st) = None \<or> 0 \<le> q))
    \<and> (\<forall>idx. findIndex (\<lambda>p. prod_id p = pid) (products st) = Some idx
          \<and> stockLevel (products st ! idx) < q
          \<longrightarrow> removeStock st pid q uid r i t st = (False, st))"
proof (intro conjI allI impI)
  show "\<forall>p\<in>set (products (snd (removeStock st pid q uid r i t st))). 0 \<le> stockLevel p"
    by (rule removeStock_stock [OF assms assms])
  show "\<forall>p\<in>set (products (fst (snd (createSale st sst itemsData ap sb c n ids t (st, sst))))).
          0 \<le> stockLevel p"
    by (rule createSale_stock [OF assms])
  show "(\<forall>p\<in>set (products (snd (addStock st pid q uid r i t st))). 0 \<le> stockLevel p)
         \<longleftrightarrow> (case findIndex (\<lambda>p. prod_id p = pid) (products st) of
                None \<Rightarrow> True | Some idx \<Rightarrow> 0 \<le> stockLevel (products st ! idx) + q)"
    by (rule addStock_stock [OF assms])
  show "(\<forall>p\<in>set (products (snd (adjustStock st pid q uid r i t st))). 0 \<le> stockLevel p)
         \<longleftrightarrow> (findIndex (\<lambda>p. prod_id p = pid) (products st) = None \<or> 0 \<le> q)"
    by (rule adjustStock_stock [OF assms])
next
  fix idx
  assume "findIndex (\<lambda>p. prod_id p = pid) (products st) = Some idx
          \<and> stockLevel (products st ! idx) < q"
  then show "removeStock st pid q uid r i t st = (False, st)"
    by (simp add: removeStock_refuses)
qed

text \<open>
  The theorem at the demo products: removing 26 of product 1 (stock level 25) is refused and
  changes nothing; the stock levels after adding \<open>-30\<close> to product 1 are not all
  non-negative, since \<open>25 + (-30) < 0\<close>.
\<close>

theorem stockLevel_nonneg_preserved_witness:
  "list_all (\<lambda>p. 0 \<le> stockLevel p) (products (initialProductsState 0))
   \<and> list_all (\<lambda>p. 0 \<le> stockLevel p)
        (products (snd (removeStock (initialProductsState 0) ''1'' 26 ''1'' None ''a1'' 1
           (initialProductsState 0))))
   \<and> removeStock (initialProductsState 0) ''1'' 26 ''1'' None ''a1'' 1 (initialProductsState 0)
        = (False, initialProductsState 0)
   \<and> \<not> list_all (\<lambda>p. 0 \<le> stockLevel p)
        (products (snd (addStock (initialProductsState 0) ''1'' (- 30) ''1'' None ''a1'' 1
           (initialProductsState 0))))"
proof -
  have h: "\<forall>p\<in>set (products (initialProductsState 0)). 0 \<le> stockLevel p"
    by (simp add: initialProductsState_def DEMO_PRODUCTS_def)
  have idx: "findIndex (\<lambda>p. prod_id p = ''1'') (products (initialProductsState 0)) = Some 0"
    by (simp add: initialProductsState_def DEMO_PRODUCTS_def)
  have lvl: "stockLevel (products (initialProductsState 0) ! 0) = 25"
    by (simp add: initialProductsState_def DEMO_PRODUCTS_def)
  from stockLevel_nonneg_preserved [OF h, of "''1''" "26" "''1''" None "''a1''" 1]
  have a: "(\<forall>p\<in>set (products (snd (removeStock (initialProductsState 0) ''1'' 26 ''1'' None
                ''a1'' 1 (initialProductsState 0)))). 0 \<le> stockLevel p)"
    and b: "removeStock (initialProductsState 0) ''1'' 26 ''1'' None ''a1'' 1
              (initialProductsState 0) = (False, initialProductsState 0)"
    using idx lvl by simp_all
  from stockLevel_nonneg_preserved [OF h, of "''1''" "- 30" "''1''" None "''a1''" 1]
  have c: "\<not> (\<forall>p\<in>set (products (snd (addStock (initialProductsState 0) ''1'' (- 30) ''1'' None
                ''a1'' 1 (initialProductsState 0)))). 0 \<le> stockLevel p)"
    using idx lvl by simp
  from h a b c show ?thesis
    by (simp only: list_all_iff simp_thms)
qed


section \<open>What the sales operations return\<close>

lemma foldl_subtotal:
  "foldl (\<lambda>acc item. acc + subtotal item) a xs = a + sum_list (map subtotal xs)"
  by (induction xs arbitrary: a) (simp_all add: add.assoc)

lemma createSale_Some:
  assumes "createSale pr sr itemsData ap sb c n ids t st = (Some sale, pst', sst')"
  shows "\<exists>its. saleItems_of (products pr) ids 0 itemsData = Some its
      \<and> sale = \<lparr>sale_id = ids (length itemsData), items = its,
                 totalAmount = sum_list (map subtotal its), amountPaid = ap,
                 balance = sum_list (map subtotal its) - ap,
                 paymentStatus = (if ap < sum_list (map subtotal its)
                                  then (if ap = 0 then CREDIT else PARTIAL) else PAID),
                 customer = c, sale_notes = n, soldBy = sb,
                 sale_createdAt = t, sale_updatedAt = t\<rparr>
      \<and> removeStock_items pr its sb (Some (''Sale: '' @ ids (length itemsData))) ids
            (Suc (length itemsData)) t (fst st) = (True, pst')
      \<and> sst' = (snd st)\<lparr>sales := sales sr @ [sale]\<rparr>"
proof (cases "saleItems_of (products pr) ids 0 itemsData")
  case None
  with assms show ?thesis by (simp add: createSale_def)
next
  case (Some its)
  with assms show ?thesis
    by (auto simp: createSale_def Let_def foldl_subtotal case_prod_beta split: if_splits
        intro: prod_eqI)
qed

lemma createSale_None:
  assumes "createSale pr sr itemsData ap sb c n ids t st = (None, pst', sst')"
  shows "sst' = snd st"
  using assms
  by (auto simp: createSale_def Let_def case_prod_beta split: option.splits if_splits)

lemma addCreditPayment_Some:
  assumes "addCreditPayment r sid amt rb pm n i t st = (Some pay, st')"
  shows "\<exists>k. findIndex (\<lambda>s. sale_id s = sid) (sales r) = Some k
      \<and> 0 < amt \<and> amt \<le> balance (sales r ! k)
      \<and> pay = \<lparr>pay_id = i, saleId = sid, amount = amt, paymentMethod = pm, receivedBy = rb,
                pay_notes = n, paymentDate = t\<rparr>
      \<and> st' = st\<lparr>sales := (sales r)[k := (sales r ! k)
                     \<lparr>amountPaid := amountPaid (sales r ! k) + amt,
                      balance := balance (sales r ! k) - amt,
                      paymentStatus :=
                        (if balance (sales r ! k) - amt \<le> 1 / 1000 then PAID else PARTIAL),
                      sale_updatedAt := t\<rparr>],
                   creditPayments := creditPayments r @ [pay]\<rparr>"
  using assms
  by (auto simp: addCreditPayment_def Let_def split: option.splits if_splits)

lemma addCreditPayment_None:
  "fst (addCreditPayment r sid amt rb pm n i t st) = None \<longleftrightarrow>
     (case findIndex (\<lambda>s. sale_id s = sid) (sales r) of
        None \<Rightarrow> True | Some k \<Rightarrow> amt \<le> 0 \<or> balance (sales r ! k) < amt)"
  by (simp add: addCreditPayment_def Let_def split: option.splits)

lemma addCreditPayment_None_state:
  assumes "fst (addCreditPayment r sid amt rb pm n i t st) = None"
  shows "snd (addCreditPayment r sid amt rb pm n i t st) = st"
proof (cases "findIndex (\<lambda>s. sale_id s = sid) (sales r)")
  case None
  then show ?thesis by (simp add: addCreditPayment_def)
next
  case (Some k)
  show ?thesis
  proof (cases "amt \<le> 0 \<or> balance (sales r ! k) < amt")
    case True
    with Some show ?thesis by (simp add: addCreditPayment_def Let_def)
  next
    case False
    with Some assms show ?thesis by (simp add: addCreditPayment_def Let_def)
  qed
qed

lemma createSale_balance:
  assumes "\<forall>x\<in>set (sales sst). balance x = totalAmount x - amountPaid x"
  shows "\<forall>x\<in>set (sales (snd (snd (createSale pst sst itemsData ap sb c n ids t (pst, sst))))).
           balance x = totalAmount x - amountPaid x"
proof (cases "createSale pst sst itemsData ap sb c n ids t (pst, sst)")
  case (fields res pst' sst')
  show ?thesis
  proof (cases res)
    case None
    with fields createSale_None [of pst sst itemsData ap sb c n ids t "(pst, sst)" pst' sst'] assms
    show ?thesis by simp
  next
    case (Some sale)
    with fields createSale_Some [of pst sst itemsData ap sb c n ids t "(pst, sst)" sale pst' sst']
    obtain its where "sst' = sst\<lparr>sales := sales sst @ [sale]\<rparr>"
      and "balance sale = totalAmount sale - amountPaid sale"
      by auto
    with fields assms show ?thesis by simp
  qed
qed

lemma addCreditPayment_balance:
  assumes "\<forall>x\<in>set (sales sst). balance x = totalAmount x - amountPaid x"
  shows "\<forall>x\<in>set (sales (snd (addCreditPayment sst sid amt rb pm n i t sst))).
           balance x = totalAmount x - amountPaid x"
proof (cases "addCreditPayment sst sid amt rb pm n i t sst")
  case (Pair res st')
  show ?thesis
  proof (cases res)
    case None
    with Pair addCreditPayment_None_state [of sst sid amt rb pm n i t sst] assms
    show ?thesis by simp
  next
    case (Some pay)
    with Pair addCreditPayment_Some [of sst sid amt rb pm n i t sst pay st']
    obtain k where k: "findIndex (\<lambda>s. sale_id s = sid) (sales sst) = Some k"
      and st': "sales st' = (sales sst)[k := (sales sst ! k)
                     \<lparr>amountPaid := amountPaid (sales sst ! k) + amt,
                      balance := balance (sales sst ! k) - amt,
                      paymentStatus :=
                        (if balance (sales sst ! k) - amt \<le> 1 / 1000 then PAID else PARTIAL),
                      sale_updatedAt := t\<rparr>]"
      by auto
    let ?u = "(sales sst ! k)
                     \<lparr>amountPaid := amountPaid (sales sst ! k) + amt,
                      balance := balance (sales sst ! k) - amt,
                      paymentStatus :=
                        (if balance (sales sst ! k) - amt \<le> 1 / 1000 then PAID else PARTIAL),
                      sale_updatedAt := t\<rparr>"
    from findIndex_Some [OF k] have "sales sst ! k \<in> set (sales sst)" by simp
    with assms have "balance (sales sst ! k) = totalAmount (sales sst ! k) - amountPaid (sales sst ! k)"
      by blast
    then have "balance ?u = totalAmount ?u - amountPaid ?u" by simp
    from ball_set_update [of "sales sst" "\<lambda>x. balance x = totalAmount x - amountPaid x",
        OF assms this, of k]
    have "\<forall>x\<in>set (sales st'). balance x = totalAmount x - amountPaid x"
      unfolding st' .
    with Pair show ?thesis by simp
  qed
qed


lemma createSale_fst_Some:
  assumes "fst (createSale pr sr itemsData ap sb c n ids t st) = Some sale"
  shows "\<exists>its. saleItems_of (products pr) ids 0 itemsData = Some its
      \<and> sale = \<lparr>sale_id = ids (length itemsData), items = its,
                 totalAmount = sum_list (map subtotal its), amountPaid = ap,
                 balance = sum_list (map subtotal its) - ap,
                 paymentStatus = (if ap < sum_list (map subtotal its)
                                  then (if ap = 0 then CREDIT else PARTIAL) else PAID),
                 customer = c, sale_notes = n, soldBy = sb,
                 sale_createdAt = t, sale_updatedAt = t\<rparr>"
proof -
  obtain pst' sst' where "createSale pr sr itemsData ap sb c n ids t st = (Some sale, pst', sst')"
    using assms by (cases "createSale pr sr itemsData ap sb c n ids t st") simp
  from createSale_Some [OF this] show ?thesis by blast
qed

lemma addCreditPayment_fst_Some:
  assumes "fst (addCreditPayment r sid amt rb pm n i t st) = Some pay"
  shows "\<exists>k. findIndex (\<lambda>s. sale_id s = sid) (sales r) = Some k
      \<and> 0 < amt \<and> amt \<le> balance (sales r ! k)
      \<and> pay = \<lparr>pay_id = i, saleId = sid, amount = amt, paymentMethod = pm, receivedBy = rb,
                pay_notes = n, paymentDate = t\<rparr>
      \<and> snd (addCreditPayment r sid amt rb pm n i t st) =
          st\<lparr>sales := (sales r)[k := (sales r ! k)
                     \<lparr>amountPaid := amountPaid (sales r ! k) + amt,
                      balance := balance (sales r ! k) - amt,
                      paymentStatus :=
                        (if balance (sales r ! k) - amt \<le> 1 / 1000 then PAID else PARTIAL),
                      sale_updatedAt := t\<rparr>],
                   creditPayments := creditPayments r @ [pay]\<rparr>"
proof -
  obtain st' where "addCreditPayment r sid amt rb pm n i t st = (Some pay, st')"
    using assms by (cases "addCreditPayment r sid amt rb pm n i t st") simp
  from addCreditPayment_Some [OF this] this show ?thesis by auto
qed

lemmas demo_defs = demoSale_def demoIds_def createSale_def cartSaleItem_def
  initialProductsState_def initialSalesState_def DEMO_PRODUCTS_def removeStock_def
  createStockActivity_def Let_def

lemma demoSale_500:
  "snd (snd (demoSale [cartSaleItem (hd (DEMO_PRODUCTS 0)) 1] 500)) =
     \<lparr>sales = [\<lparr>sale_id = ''id+'',
           items = [\<lparr>productId = ''1'',
                     productSnapshot = \<lparr>snap_id = ''1'', snap_name = ''T-Shirt'',
                                        snap_sku = Some ''TS-001'', snap_price = 1500\<rparr>,
                     quantity = 1, pricePerUnit = 1500, discount = None,
                     item_id = ''id'', subtotal = 1500\<rparr>],
           totalAmount = 1500, amountPaid = 500, balance = 1000,
           paymentStatus = PARTIAL,
           customer = None, sale_notes = None, soldBy = ''2'',
           sale_createdAt = 1, sale_updatedAt = 1\<rparr>], creditPayments = []\<rparr>"
  by (simp add: demo_defs)

lemma demoPayment_1000:
  "demoPayment ''id+'' 1000 =
    (Some \<lparr>pay_id = ''p1'', saleId = ''id+'', amount = 1000, paymentMethod = ''cash'',
           receivedBy = ''2'', pay_notes = None, paymentDate = 2\<rparr>,
     \<lparr>sales = [\<lparr>sale_id = ''id+'',
           items = [\<lparr>productId = ''1'',
                     productSnapshot = \<lparr>snap_id = ''1'', snap_name = ''T-Shirt'',
                                        snap_sku = Some ''TS-001'', snap_price = 1500\<rparr>,
                     quantity = 1, pricePerUnit = 1500, discount = None,
                     item_id = ''id'', subtotal = 1500\<rparr>],
           totalAmount = 1500, amountPaid = 1500, balance = 0,
           paymentStatus = PAID,
           customer = None, sale_notes = None, soldBy = ''2'',
           sale_createdAt = 1, sale_updatedAt = 2\<rparr>],
      creditPayments = [\<lparr>pay_id = ''p1'', saleId = ''id+'', amount = 1000,
           paymentMethod = ''cash'', receivedBy = ''2'', pay_notes = None, paymentDate = 2\<rparr>]\<rparr>)"
  by (simp add: demoPayment_def demoSale_500 addCreditPayment_def Let_def)


section \<open>Rounding to a double\<close>

lemma fb: "0 < n \<Longrightarrow> 2 ^ (floorlog 2 n - 1) \<le> n \<and> n < 2 ^ floorlog 2 n"
  by (rule floorlog_bounds) simp_all

lemma pos: "0 < n \<Longrightarrow> 0 < floorlog 2 n"
  by (simp add: floorlog_def)

lemma pow2_bounds_nat:
  assumes "0 < n"
  shows "(2::rat) powi (int (floorlog 2 n) - 1) \<le> of_nat n" and "of_nat n < (2::rat) powi int (floorlog 2 n)"
proof -
  note a = fb [OF assms, THEN conjunct1] and b = fb [OF assms, THEN conjunct2]
  have "int (floorlog 2 n) - 1 = int (floorlog 2 n - 1)" using pos [OF assms] by simp
  then have "(2::rat) powi (int (floorlog 2 n) - 1) = 2 powi int (floorlog 2 n - 1)" by (rule arg_cong)
  also have "\<dots> = 2 ^ (floorlog 2 n - 1)" by (rule power_int_of_nat)
  also have "\<dots> = of_nat (2 ^ (floorlog 2 n - 1))" by (simp only: of_nat_power of_nat_numeral)
  also have "\<dots> \<le> of_nat n" using a by (simp only: of_nat_le_iff)
  finally show "(2::rat) powi (int (floorlog 2 n) - 1) \<le> of_nat n" .
  have "of_nat n < (of_nat (2 ^ floorlog 2 n) :: rat)" using b by (simp only: of_nat_less_iff)
  then show "of_nat n < (2::rat) powi int (floorlog 2 n)"
    by (simp only: of_nat_power of_nat_numeral power_int_of_nat)
qed


lemma binade_bounds:
  assumes "x \<noteq> 0"
  shows "2 powi binade x \<le> \<bar>x\<bar> \<and> \<bar>x\<bar> < 2 powi (binade x + 1)"
proof -
  obtain n d where q: "quotient_of \<bar>x\<bar> = (n, d)" by (cases "quotient_of \<bar>x\<bar>")
  from quotient_of_denom_pos [OF q] have d: "0 < d" .
  from quotient_of_div [OF q] have x: "\<bar>x\<bar> = of_int n / of_int d" .
  have dpos: "(0::rat) < of_int d" using d by simp
  from assms have "0 < \<bar>x\<bar>" by simp
  then have "(0::rat) < of_int n / of_int d" by (simp only: x)
  with dpos have "(0::rat) < of_int n" by (simp only: zero_less_divide_iff) auto
  then have n: "0 < n" by simp
  let ?bn = "floorlog 2 (nat n)" and ?bd = "floorlog 2 (nat d)"
  let ?e0 = "int ?bn - int ?bd"
  from n have nn: "(of_nat (nat n) :: rat) = of_int n" by simp
  from d have dd: "(of_nat (nat d) :: rat) = of_int d" by simp
  have n1: "(2::rat) powi (int ?bn - 1) \<le> of_int n" and n2: "of_int n < (2::rat) powi int ?bn"
    using pow2_bounds_nat [of "nat n"] n unfolding nn by simp_all
  have d1: "(2::rat) powi (int ?bd - 1) \<le> of_int d" and d2: "of_int d < (2::rat) powi int ?bd"
    using pow2_bounds_nat [of "nat d"] d unfolding dd by simp_all
  have lo: "(2::rat) powi (?e0 - 1) \<le> \<bar>x\<bar>"
  proof -
    have "(2::rat) powi (?e0 - 1) * of_int d \<le> 2 powi (?e0 - 1) * 2 powi int ?bd"
      using d2 by (intro mult_left_mono) simp_all
    also have "\<dots> = 2 powi ((?e0 - 1) + int ?bd)"
      by (rule power_int_add [symmetric]) simp
    also have "(?e0 - 1) + int ?bd = int ?bn - 1" by simp
    also have "(2::rat) powi (int ?bn - 1) \<le> of_int n" by (rule n1)
    finally have "(2::rat) powi (?e0 - 1) * of_int d \<le> of_int n" .
    then have "(2::rat) powi (?e0 - 1) \<le> of_int n / of_int d"
      using dpos by (simp only: pos_le_divide_eq)
    then show ?thesis by (simp only: x)
  qed
  have hi: "\<bar>x\<bar> < (2::rat) powi (?e0 + 1)"
  proof -
    have "of_int n < (2::rat) powi int ?bn" by (rule n2)
    also have "int ?bn = (?e0 + 1) + (int ?bd - 1)" by simp
    also have "(2::rat) powi ((?e0 + 1) + (int ?bd - 1)) = 2 powi (?e0 + 1) * 2 powi (int ?bd - 1)"
      by (rule power_int_add) simp
    also have "\<dots> \<le> 2 powi (?e0 + 1) * of_int d"
      using d1 by (intro mult_left_mono) simp_all
    finally have "of_int n < (2::rat) powi (?e0 + 1) * of_int d" .
    then have "of_int n / of_int d < (2::rat) powi (?e0 + 1)"
      using dpos by (simp only: pos_divide_less_eq)
    then show ?thesis by (simp only: x)
  qed
  have b: "binade x = (if 2 powi ?e0 \<le> \<bar>x\<bar> then ?e0 else ?e0 - 1)"
    unfolding binade_def q by (simp only: Let_def prod.case)
  show ?thesis
  proof (cases "2 powi ?e0 \<le> \<bar>x\<bar>")
    case True
    with b have "binade x = ?e0" by (simp only: if_True)
    with True hi show ?thesis by (simp only:)
  next
    case False
    with b have e: "binade x = ?e0 - 1" by (simp only: if_False)
    from False have "\<bar>x\<bar> < 2 powi ?e0" by (simp only: not_le)
    with lo show ?thesis by (simp add: e)
  qed
qed


lemma binade_unique:
  assumes "2 powi e \<le> \<bar>x\<bar>" and "\<bar>x\<bar> < 2 powi (e + 1)"
  shows "binade x = e"
proof -
  have "(0::rat) < 2 powi e" by simp
  from this assms(1) have "0 < \<bar>x\<bar>" by (rule less_le_trans)
  then have "x \<noteq> 0" by simp
  from binade_bounds [OF this] have b: "2 powi binade x \<le> \<bar>x\<bar>" "\<bar>x\<bar> < 2 powi (binade x + 1)"
    by simp_all
  from assms(1) b(2) have lt1: "(2::rat) powi e < 2 powi (binade x + 1)" by (rule le_less_trans)
  have 1: "e < binade x + 1"
  proof (rule ccontr)
    assume "\<not> e < binade x + 1"
    then have "binade x + 1 \<le> e" by simp
    then have "(2::rat) powi (binade x + 1) \<le> 2 powi e" by (rule power_int_increasing) simp
    with lt1 show False by simp
  qed
  from b(1) assms(2) have lt2: "(2::rat) powi binade x < 2 powi (e + 1)" by (rule le_less_trans)
  have 2: "binade x < e + 1"
  proof (rule ccontr)
    assume "\<not> binade x < e + 1"
    then have "e + 1 \<le> binade x" by simp
    then have "(2::rat) powi (e + 1) \<le> 2 powi binade x" by (rule power_int_increasing) simp
    with lt2 show False by simp
  qed
  from 1 2 show ?thesis by simp
qed

lemma round64_eqI:
  assumes lo: "2 powi (e + 52) \<le> \<bar>x\<bar>" and hi: "\<bar>x\<bar> < 2 powi (e + 53)"
    and near: "\<bar>\<bar>x\<bar> / 2 powi e - of_int m\<bar> < 1 / 2"
  shows "round64 x = sgn x * of_int m * 2 powi e"
proof -
  have "(0::rat) < 2 powi (e + 52)" by simp
  from this lo have "0 < \<bar>x\<bar>" by (rule less_le_trans)
  then have nz: "x \<noteq> 0" by simp
  from hi have "\<bar>x\<bar> < 2 powi ((e + 52) + 1)" by (simp add: add.assoc)
  with lo have "binade x = e + 52" by (rule binade_unique)
  then have u: "binade x - 52 = e" by simp
  let ?m = "\<bar>x\<bar> / 2 powi e"
  let ?f = "\<lfloor>?m\<rfloor>"
  let ?r = "(if ?m - of_int ?f < 1 / 2 then ?f
                 else if 1 / 2 < ?m - of_int ?f then ?f + 1
                 else if even ?f then ?f else ?f + 1)"
  have r: "?r = m"
  proof (cases "of_int m \<le> ?m")
    case True
    with near have "?m < of_int m + 1" by linarith
    with True have f: "?f = m" by (simp add: floor_unique)
    with near True have "?m - of_int ?f < 1 / 2" by simp
    with f show ?thesis by simp
  next
    case False
    with near have a: "of_int (m - 1) \<le> ?m" and b: "?m < of_int (m - 1) + 1"
      by (auto simp: abs_less_iff)
    from a b have f: "?f = m - 1" by (rule floor_unique)
    from near False have c: "1 / 2 < ?m - of_int (m - 1)"
      by (auto simp: abs_less_iff)
    then have "\<not> ?m - of_int (m - 1) < 1 / 2" by simp
    with c show ?thesis unfolding f by simp
  qed
  show ?thesis
    unfolding round64_def u using nz r by (simp add: Let_def)
qed

lemma round64_tieI:
  assumes lo: "2 powi (e + 52) \<le> \<bar>x\<bar>" and hi: "\<bar>x\<bar> < 2 powi (e + 53)"
    and tie: "\<bar>x\<bar> / 2 powi e = of_int f + 1 / 2"
  shows "round64 x = sgn x * of_int (if even f then f else f + 1) * 2 powi e"
proof -
  have "(0::rat) < 2 powi (e + 52)" by simp
  from this lo have "0 < \<bar>x\<bar>" by (rule less_le_trans)
  then have nz: "x \<noteq> 0" by simp
  from hi have "\<bar>x\<bar> < 2 powi ((e + 52) + 1)" by (simp add: add.assoc)
  with lo have "binade x = e + 52" by (rule binade_unique)
  then have u: "binade x - 52 = e" by simp
  let ?m = "\<bar>x\<bar> / 2 powi e"
  have fl: "\<lfloor>?m\<rfloor> = f"
    unfolding tie by (rule floor_unique) simp_all
  have half: "?m - of_int \<lfloor>?m\<rfloor> = 1 / 2"
    unfolding fl by (simp add: tie)
  have r: "(if ?m - of_int \<lfloor>?m\<rfloor> < 1 / 2 then \<lfloor>?m\<rfloor>
            else if 1 / 2 < ?m - of_int \<lfloor>?m\<rfloor> then \<lfloor>?m\<rfloor> + 1
            else if even \<lfloor>?m\<rfloor> then \<lfloor>?m\<rfloor> else \<lfloor>?m\<rfloor> + 1)
           = (if even f then f else f + 1)"
    unfolding half unfolding fl by simp
  show ?thesis
    unfolding round64_def u Let_def r using nz by simp
qed

text \<open>
  The roundings met below; 6980579422424269 / 2251799813685248 is the double written 3.1,
  4728779608739021 / 2251799813685248 is 2.1, 3884354678607053 / 562949953421312 is 6.9,
  5854679515581645 / 1125899906842624 is 5.2, 5404319552844595 / 1125899906842624 is 4.8 and
  1351079888211149 / 281474976710656 is 4.800000000000001.  The third line from the end is
  the difference 10 - 3.1 and the second from the end the difference 6.9 - 2.1 of these
  doubles before rounding; both lie halfway between two doubles and go to the even one.
\<close>

lemma round64_values:
  "round64 10 = 10"
  "round64 24 = 24"
  "round64 (31 / 10) = 6980579422424269 / 2251799813685248"
  "round64 (21 / 10) = 4728779608739021 / 2251799813685248"
  "round64 (1 / 1000) = 1152921504606847 / 1152921504606846976"
  "round64 (5854679515581645 / 1125899906842624) = 5854679515581645 / 1125899906842624"
  "round64 (5404319552844595 / 1125899906842624) = 5404319552844595 / 1125899906842624"
  "round64 (15537418714428211 / 2251799813685248) = 3884354678607053 / 562949953421312"
  "round64 (10808639105689191 / 2251799813685248) = 1351079888211149 / 281474976710656"
  using round64_eqI [of "-49" 10 5629499534213120]
    round64_eqI [of "-48" 24 6755399441055744]
    round64_eqI [of "-51" "31 / 10" 6980579422424269]
    round64_eqI [of "-51" "21 / 10" 4728779608739021]
    round64_eqI [of "-62" "1 / 1000" 4611686018427388]
    round64_eqI [of "-50" "5854679515581645 / 1125899906842624" 5854679515581645]
    round64_eqI [of "-50" "5404319552844595 / 1125899906842624" 5404319552844595]
    round64_tieI [of "-50" "15537418714428211 / 2251799813685248" 7768709357214105]
    round64_tieI [of "-50" "10808639105689191 / 2251799813685248" 5404319552844595]
  by simp_all


text \<open>The double written 0.1, for comparison with its known value.\<close>

lemma round64_tenth: "round64 (1 / 10) = 3602879701896397 / 36028797018963968"
  using round64_eqI [of "-56" "1 / 10" 7205759403792794] by simp

text \<open>Rounding keeps a non-negative number non-negative.\<close>

lemma round64_nonneg:
  assumes "0 \<le> x"
  shows "0 \<le> round64 x"
proof (cases "x = 0")
  case True
  then show ?thesis by (simp add: round64_def)
next
  case False
  let ?ulp = "(2::rat) powi (binade x - 52)"
  let ?m = "\<bar>x\<bar> / ?ulp"
  let ?r = "(if ?m - of_int \<lfloor>?m\<rfloor> < 1 / 2 then \<lfloor>?m\<rfloor>
             else if 1 / 2 < ?m - of_int \<lfloor>?m\<rfloor> then \<lfloor>?m\<rfloor> + 1
             else if even \<lfloor>?m\<rfloor> then \<lfloor>?m\<rfloor> else \<lfloor>?m\<rfloor> + 1)"
  have u: "0 < ?ulp" by simp
  then have "0 \<le> ?m" by simp
  then have "0 \<le> \<lfloor>?m\<rfloor>" by simp
  then have r: "0 \<le> ?r" by simp
  from assms False have s: "sgn x = 1" by simp
  have "round64 x = sgn x * of_int ?r * ?ulp"
    using False by (simp add: round64_def Let_def)
  also have "\<dots> = of_int ?r * ?ulp" by (simp only: s mult_1)
  also have "0 \<le> of_int ?r * ?ulp"
    using r u by (intro mult_nonneg_nonneg) simp_all
  finally show ?thesis .
qed


section \<open>Stock levels with doubles\<close>

text \<open>
  With the differences rounded to doubles, \<^verbatim>\<open>removeStock\<close> and \<^verbatim>\<open>createSale\<close>
  leave every stock level non-negative as they do in exact arithmetic: the guard of
  \<^verbatim>\<open>removeStock\<close> makes the exact difference non-negative, and rounding keeps it so.
\<close>

lemma removeStock_fl_stock:
  assumes fl: "\<And>x. 0 \<le> x \<Longrightarrow> 0 \<le> fl x"
    and "\<forall>p\<in>set (products render). 0 \<le> stockLevel p"
    and "\<forall>p\<in>set (products st). 0 \<le> stockLevel p"
  shows "\<forall>p\<in>set (products (snd (removeStock_fl fl render pid q uid r i t st))).
           0 \<le> stockLevel p"
proof (cases "findIndex (\<lambda>p. prod_id p = pid) (products render)")
  case None
  with assms(3) show ?thesis by (simp add: removeStock_fl_def)
next
  case (Some idx)
  show ?thesis
  proof (cases "stockLevel (products render ! idx) < q")
    case True
    with Some assms(3) show ?thesis by (simp add: removeStock_fl_def)
  next
    case False
    then have "0 \<le> fl (stockLevel (products render ! idx) - q)"
      by (intro fl) simp
    then have "0 \<le> stockLevel ((products render ! idx)
        \<lparr>stockLevel := fl (stockLevel (products render ! idx) - q), prod_updatedAt := t\<rparr>)"
      by simp
    from stock_update [OF assms(2) this] Some False show ?thesis
      by (simp add: removeStock_fl_def Let_def)
  qed
qed

lemma removeStock_items_fl_stock:
  assumes fl: "\<And>x. 0 \<le> x \<Longrightarrow> 0 \<le> fl x"
    and "\<forall>p\<in>set (products render). 0 \<le> stockLevel p"
    and "\<forall>p\<in>set (products st). 0 \<le> stockLevel p"
  shows "\<forall>p\<in>set (products (snd (removeStock_items_fl fl render its sb r ids k t st))).
           0 \<le> stockLevel p"
  using assms(3)
proof (induction its arbitrary: k st)
  case Nil
  then show ?case by simp
next
  case (Cons item rest)
  let ?r = "removeStock_fl fl render (productId item) (quantity item) sb r (ids k) t st"
  have step: "\<forall>p\<in>set (products (snd ?r)). 0 \<le> stockLevel p"
    by (rule removeStock_fl_stock [OF fl assms(2) Cons.prems])
  show ?case
  proof (cases "fst ?r")
    case True
    with Cons.IH [OF step, of "Suc k"] show ?thesis
      by (simp add: case_prod_beta)
  next
    case False
    with step show ?thesis by (simp add: case_prod_beta)
  qed
qed

lemma createSale_fl_stock:
  assumes fl: "\<And>x. 0 \<le> x \<Longrightarrow> 0 \<le> fl x"
    and "\<forall>p\<in>set (products pst). 0 \<le> stockLevel p"
  shows "\<forall>p\<in>set (products (fst (snd
            (createSale_fl fl pst sst itemsData ap sb c n ids t (pst, sst))))). 0 \<le> stockLevel p"
proof (cases "saleItems_of_fl fl (products pst) ids 0 itemsData")
  case None
  with assms(2) show ?thesis by (simp add: createSale_fl_def)
next
  case (Some its)
  from removeStock_items_fl_stock [OF fl assms(2) assms(2)] Some show ?thesis
    by (simp add: createSale_fl_def Let_def case_prod_beta)
qed

lemma stockLevel_nonneg_doubles:
  assumes "\<forall>p\<in>set (products st). 0 \<le> stockLevel p"
  shows "\<forall>p\<in>set (products (snd (removeStock_fl round64 st pid q uid r i t st))).
           0 \<le> stockLevel p"
    and "\<forall>p\<in>set (products (fst (snd
            (createSale_fl round64 st sst itemsData ap sb c n ids t (st, sst))))).
           0 \<le> stockLevel p"
  using removeStock_fl_stock [of round64, OF round64_nonneg assms assms]
    createSale_fl_stock [of round64, OF round64_nonneg assms]
  by blast+


section \<open>The balance of a sale\<close>

text \<open>
  With the identity for \<open>fl\<close> the rounded operations are the exact ones, and in exact
  arithmetic every sale of a reachable store satisfies
  \<open>balance = totalAmount - amountPaid\<close>.
\<close>

lemma saleItems_of_exact: "saleItems_of_fl (\<lambda>x. x) ps ids k ds = saleItems_of ps ids k ds"
  by (induction ds arbitrary: k) (simp_all add: Let_def split: option.splits)

lemma removeStock_exact: "removeStock_fl (\<lambda>x. x) = removeStock"
  by (intro ext) (simp add: removeStock_fl_def removeStock_def)

lemma removeStock_items_exact:
  "removeStock_items_fl (\<lambda>x. x) render its sb r ids k t st = removeStock_items render its sb r ids k t st"
  by (induction its arbitrary: k st) (simp_all add: removeStock_exact case_prod_beta)

lemma createSale_exact: "createSale_fl (\<lambda>x. x) = createSale"
  by (intro ext)
    (unfold createSale_fl_def createSale_def saleItems_of_exact removeStock_items_exact,
      rule refl)

lemma addCreditPayment_exact: "addCreditPayment_fl (\<lambda>x. x) = addCreditPayment"
  by (intro ext) (simp add: addCreditPayment_fl_def addCreditPayment_def)

lemma reachableSales_exact_balance:
  assumes "reachableSales_fl (\<lambda>x. x) sst"
  shows "\<forall>x\<in>set (sales sst). balance x = totalAmount x - amountPaid x"
  using assms
proof (induction rule: reachableSales_fl.induct)
  case initial
  show ?case by (simp add: initialSalesState_def)
next
  case (createSale sst pst itemsData ap sb c n ids t)
  then show ?case unfolding createSale_exact by (intro createSale_balance)
next
  case (addCreditPayment sst sid amt rb pm n i t)
  then show ?case unfolding addCreditPayment_exact by (intro addCreditPayment_balance)
qed

lemma createSale_fl_balance:
  assumes "fst (createSale_fl fl pr sr itemsData ap sb c n ids t st) = Some sale"
  shows "balance sale = fl (totalAmount sale - amountPaid sale)"
  using assms
  by (auto simp: createSale_fl_def Let_def case_prod_beta split: option.splits if_splits)

lemma addCreditPayment_fl_fields:
  assumes "fst (addCreditPayment_fl fl r sid amt rb pm n i t st) = Some pay"
  shows "\<exists>k. findIndex (\<lambda>s. sale_id s = sid) (sales r) = Some k
      \<and> amountPaid (sales (snd (addCreditPayment_fl fl r sid amt rb pm n i t st)) ! k)
          = fl (amountPaid (sales r ! k) + amt)
      \<and> balance (sales (snd (addCreditPayment_fl fl r sid amt rb pm n i t st)) ! k)
          = fl (balance (sales r ! k) - amt)
      \<and> totalAmount (sales (snd (addCreditPayment_fl fl r sid amt rb pm n i t st)) ! k)
          = totalAmount (sales r ! k)"
proof (cases "findIndex (\<lambda>s. sale_id s = sid) (sales r)")
  case None
  with assms show ?thesis by (simp add: addCreditPayment_fl_def)
next
  case (Some k)
  from findIndex_Some [OF Some] have len: "k < length (sales r)" by simp
  show ?thesis
  proof (cases "amt \<le> 0 \<or> balance (sales r ! k) < amt")
    case True
    with Some assms show ?thesis by (simp add: addCreditPayment_fl_def Let_def)
  next
    case False
    with Some len show ?thesis by (simp add: addCreditPayment_fl_def Let_def)
  qed
qed

lemma demoSale64_sales:
  "snd (snd demoSale64) =
     \<lparr>sales = [\<lparr>sale_id = ''id+'',
           items = [\<lparr>productId = ''1'',
                     productSnapshot = \<lparr>snap_id = ''1'', snap_name = ''T-Shirt'',
                                        snap_sku = Some ''TS-001'', snap_price = 10\<rparr>,
                     quantity = 1, pricePerUnit = 10, discount = None,
                     item_id = ''id'', subtotal = 10\<rparr>],
           totalAmount = 10, amountPaid = 6980579422424269 / 2251799813685248,
           balance = 3884354678607053 / 562949953421312,
           paymentStatus = PARTIAL,
           customer = None, sale_notes = None, soldBy = ''2'',
           sale_createdAt = 1, sale_updatedAt = 1\<rparr>], creditPayments = []\<rparr>"
  by (simp add: demoSale64_def demoProducts10_def demoIds_def createSale_fl_def cartSaleItem_def
      initialSalesState_def DEMO_PRODUCTS_def removeStock_fl_def createStockActivity_def Let_def
      round64_values)

lemma demoPayment64_sales:
  "map (\<lambda>x. (totalAmount x, amountPaid x, balance x)) (sales (snd demoPayment64))
     = [(10, 5854679515581645 / 1125899906842624, 1351079888211149 / 281474976710656)]"
  by (simp add: demoPayment64_def demoSale64_sales addCreditPayment_fl_def Let_def round64_values)

lemma demoSale64_ok: "fst demoSale64 \<noteq> None"
  by (simp add: demoSale64_def demoProducts10_def demoIds_def createSale_fl_def cartSaleItem_def
      initialSalesState_def DEMO_PRODUCTS_def removeStock_fl_def createStockActivity_def Let_def
      round64_values)

lemma demoPayment64_ok: "fst demoPayment64 \<noteq> None"
  by (simp add: demoPayment64_def demoSale64_sales addCreditPayment_fl_def Let_def round64_values)

text \<open>
  Claim C2 as the spec states it: \<open>balance = totalAmount - amountPaid\<close> holds for every
  sale of every store reached by \<^verbatim>\<open>createSale\<close> and \<^verbatim>\<open>addCreditPayment\<close>.  With
  doubles it fails: a T-shirt of price 10 sold with 3.1 paid has the balance 6.9; the
  payment of 2.1 stores \<open>amountPaid = 3.1 + 2.1 = 5.2\<close> and
  \<open>balance = 6.9 - 2.1 = 4.800000000000001\<close>, while \<open>10 - 5.2 = 4.8\<close>.  The stored balance
  exceeds \<open>totalAmount - amountPaid\<close>, taken exactly or rounded, by \<open>2\<^sup>-\<^sup>5\<^sup>0\<close>.
\<close>

theorem balance_rounding_counterexample:
  "reachableSales_fl round64 (snd demoPayment64)
   \<and> map (\<lambda>x. (totalAmount x, amountPaid x, balance x)) (sales (snd demoPayment64))
       = [(10, 5854679515581645 / 1125899906842624, 1351079888211149 / 281474976710656)]
   \<and> map (\<lambda>x. balance x - (totalAmount x - amountPaid x)) (sales (snd demoPayment64))
       = [1 / 1125899906842624]
   \<and> map (\<lambda>x. balance x - round64 (totalAmount x - amountPaid x)) (sales (snd demoPayment64))
       = [1 / 1125899906842624]"
proof -
  have r: "reachableSales_fl round64 (snd demoPayment64)"
    unfolding demoPayment64_def demoSale64_def
    by (intro reachableSales_fl.intros)
  have v: "sales (snd demoPayment64) \<noteq> []" "length (sales (snd demoPayment64)) = 1"
    using demoPayment64_sales by auto
  have a: "map (\<lambda>x. balance x - (totalAmount x - amountPaid x)) (sales (snd demoPayment64))
       = map (\<lambda>(t, p, b). b - (t - p))
           (map (\<lambda>x. (totalAmount x, amountPaid x, balance x)) (sales (snd demoPayment64)))"
    by (simp add: comp_def)
  have b: "map (\<lambda>x. balance x - round64 (totalAmount x - amountPaid x)) (sales (snd demoPayment64))
       = map (\<lambda>(t, p, b). b - round64 (t - p))
           (map (\<lambda>x. (totalAmount x, amountPaid x, balance x)) (sales (snd demoPayment64)))"
    by (simp add: comp_def)
  have a': "map (\<lambda>x. balance x - (totalAmount x - amountPaid x)) (sales (snd demoPayment64))
       = [1 / 1125899906842624]"
    unfolding a demoPayment64_sales by simp
  have b': "map (\<lambda>x. balance x - round64 (totalAmount x - amountPaid x)) (sales (snd demoPayment64))
       = [1 / 1125899906842624]"
    unfolding b demoPayment64_sales by (simp add: round64_values)
  from r demoPayment64_sales a' b' show ?thesis by (intro conjI)
qed

text \<open>
  Claim C2, amended.  \<^verbatim>\<open>createSale\<close> stores as the balance of the new sale the
  difference \<open>totalAmount - amountPaid\<close> as the arithmetic computes it (rounded once).  A
  successful \<^verbatim>\<open>addCreditPayment\<close> stores \<open>amountPaid + amount\<close> and
  \<open>balance - amount\<close> for the sale it updates, each rounded once, and leaves its
  \<open>totalAmount\<close> as it is.  When no operation rounds (exact arithmetic),
  \<open>balance = totalAmount - amountPaid\<close> holds for every sale of every reachable store.
\<close>

theorem balance_maintained:
  "(fst (createSale_fl fl pr sr itemsData ap sb c n ids t st) = Some sale \<longrightarrow>
      balance sale = fl (totalAmount sale - amountPaid sale))
   \<and> (fst (addCreditPayment_fl fl r sid amt rb pm m i u sst) = Some pay \<longrightarrow>
        (\<exists>k. findIndex (\<lambda>s. sale_id s = sid) (sales r) = Some k
           \<and> amountPaid (sales (snd (addCreditPayment_fl fl r sid amt rb pm m i u sst)) ! k)
               = fl (amountPaid (sales r ! k) + amt)
           \<and> balance (sales (snd (addCreditPayment_fl fl r sid amt rb pm m i u sst)) ! k)
               = fl (balance (sales r ! k) - amt)
           \<and> totalAmount (sales (snd (addCreditPayment_fl fl r sid amt rb pm m i u sst)) ! k)
               = totalAmount (sales r ! k)))
   \<and> (reachableSales_fl (\<lambda>x. x) sst' \<longrightarrow>
        (\<forall>x\<in>set (sales sst'). balance x = totalAmount x - amountPaid x))"
proof (intro conjI)
  show "fst (createSale_fl fl pr sr itemsData ap sb c n ids t st) = Some sale \<longrightarrow>
      balance sale = fl (totalAmount sale - amountPaid sale)"
    by (rule impI) (rule createSale_fl_balance)
  show "fst (addCreditPayment_fl fl r sid amt rb pm m i u sst) = Some pay \<longrightarrow>
        (\<exists>k. findIndex (\<lambda>s. sale_id s = sid) (sales r) = Some k
           \<and> amountPaid (sales (snd (addCreditPayment_fl fl r sid amt rb pm m i u sst)) ! k)
               = fl (amountPaid (sales r ! k) + amt)
           \<and> balance (sales (snd (addCreditPayment_fl fl r sid amt rb pm m i u sst)) ! k)
               = fl (balance (sales r ! k) - amt)
           \<and> totalAmount (sales (snd (addCreditPayment_fl fl r sid amt rb pm m i u sst)) ! k)
               = totalAmount (sales r ! k))"
    by (rule impI) (rule addCreditPayment_fl_fields)
  show "reachableSales_fl (\<lambda>x. x) sst' \<longrightarrow>
        (\<forall>x\<in>set (sales sst'). balance x = totalAmount x - amountPaid x)"
    by (rule impI) (rule reachableSales_exact_balance)
qed

text \<open>
  The theorem at the sale and the payment in doubles of the counterexample, and at the
  store reached in exact arithmetic by selling one T-shirt (1500) with 500 paid and then
  receiving a payment of 200.
\<close>

theorem balance_maintained_witness:
  "fst demoSale64 \<noteq> None
   \<and> balance (the (fst demoSale64))
       = round64 (totalAmount (the (fst demoSale64)) - amountPaid (the (fst demoSale64)))
   \<and> fst demoPayment64 \<noteq> None
   \<and> amountPaid (sales (snd demoPayment64) ! 0)
       = round64 (amountPaid (sales (snd (snd demoSale64)) ! 0) + round64 (21 / 10))
   \<and> balance (sales (snd demoPayment64) ! 0)
       = round64 (balance (sales (snd (snd demoSale64)) ! 0) - round64 (21 / 10))
   \<and> totalAmount (sales (snd demoPayment64) ! 0) = totalAmount (sales (snd (snd demoSale64)) ! 0)
   \<and> reachableSales_fl (\<lambda>x. x) (snd (demoPayment ''id+'' 200))
   \<and> list_all (\<lambda>x. balance x = totalAmount x - amountPaid x)
        (sales (snd (demoPayment ''id+'' 200)))"
proof -
  from demoSale64_ok have s: "fst demoSale64 = Some (the (fst demoSale64))" by simp
  from demoPayment64_ok have p: "fst demoPayment64 = Some (the (fst demoPayment64))" by simp
  have a: "balance (the (fst demoSale64))
       = round64 (totalAmount (the (fst demoSale64)) - amountPaid (the (fst demoSale64)))"
    by (rule balance_maintained [THEN conjunct1, rule_format, OF s [unfolded demoSale64_def],
          folded demoSale64_def])
  from balance_maintained [THEN conjunct2, THEN conjunct1, rule_format,
      OF p [unfolded demoPayment64_def], folded demoPayment64_def]
  obtain k where k: "findIndex (\<lambda>s. sale_id s = ''id+'') (sales (snd (snd demoSale64))) = Some k"
    and f: "amountPaid (sales (snd demoPayment64) ! k)
              = round64 (amountPaid (sales (snd (snd demoSale64)) ! k) + round64 (21 / 10))"
       "balance (sales (snd demoPayment64) ! k)
              = round64 (balance (sales (snd (snd demoSale64)) ! k) - round64 (21 / 10))"
       "totalAmount (sales (snd demoPayment64) ! k) = totalAmount (sales (snd (snd demoSale64)) ! k)"
    by blast
  have "findIndex (\<lambda>s. sale_id s = ''id+'') (sales (snd (snd demoSale64))) = Some 0"
    by (simp add: demoSale64_sales)
  with k have k0: "k = 0" by simp
  have r: "reachableSales_fl (\<lambda>x. x) (snd (demoPayment ''id+'' 200))"
    unfolding demoPayment_def demoSale_def createSale_exact [symmetric]
      addCreditPayment_exact [symmetric]
    by (intro reachableSales_fl.intros)
  from balance_maintained [THEN conjunct2, THEN conjunct2, THEN mp, OF r]
  have l: "list_all (\<lambda>x. balance x = totalAmount x - amountPaid x)
        (sales (snd (demoPayment ''id+'' 200)))"
    by (simp only: list_all_iff)
  from demoSale64_ok a demoPayment64_ok f [unfolded k0] r l show ?thesis by (intro conjI)
qed


section \<open>The payment status of a sale\<close>

text \<open>
  Claim C3 as the spec states it: the payment status is determined by comparing the balance
  with zero, and the balance is zero exactly when the status is \<open>PAID\<close>.  One T-shirt
  (1500) sold with nothing paid gives a \<open>CREDIT\<close> sale and with 500 paid a \<open>PARTIAL\<close>
  sale, both with a positive balance; with 2000 paid the sale is \<open>PAID\<close> and its balance
  is \<open>-500\<close>.
\<close>

theorem paymentStatus_counterexample:
  "map_option (\<lambda>s. (balance s, paymentStatus s))
      (fst (demoSale [cartSaleItem (hd (DEMO_PRODUCTS 0)) 1] 0)) = Some (1500, CREDIT)
   \<and> map_option (\<lambda>s. (balance s, paymentStatus s))
      (fst (demoSale [cartSaleItem (hd (DEMO_PRODUCTS 0)) 1] 500)) = Some (1000, PARTIAL)
   \<and> map_option (\<lambda>s. (balance s, paymentStatus s))
      (fst (demoSale [cartSaleItem (hd (DEMO_PRODUCTS 0)) 1] 2000)) = Some (- 500, PAID)"
  by (simp add: demo_defs)

text \<open>
  Claim C3, amended.  The status of a sale returned by \<^verbatim>\<open>createSale\<close> is \<open>PAID\<close>
  exactly when its balance is at most zero, \<open>CREDIT\<close> exactly when the balance is positive
  and nothing was paid, and \<open>PARTIAL\<close> exactly when the balance is positive and the amount
  paid is not zero.  The status of the sale updated by a successful
  \<^verbatim>\<open>addCreditPayment\<close> is \<open>PAID\<close> exactly when the new balance is at most 0.001
  (the source's tolerance) and \<open>PARTIAL\<close> otherwise.  The status always lies in
  \<open>{PAID, PARTIAL, CREDIT}\<close>.
\<close>

theorem paymentStatus_determined:
  "(fst (createSale pr sr itemsData ap sb c n ids t st) = Some sale \<longrightarrow>
       (paymentStatus sale = PAID \<longleftrightarrow> balance sale \<le> 0)
     \<and> (paymentStatus sale = CREDIT \<longleftrightarrow> 0 < balance sale \<and> amountPaid sale = 0)
     \<and> (paymentStatus sale = PARTIAL \<longleftrightarrow> 0 < balance sale \<and> amountPaid sale \<noteq> 0)
     \<and> paymentStatus sale \<in> {PAID, PARTIAL, CREDIT})
   \<and> (fst (addCreditPayment r sid amt rb pm m i u sst) = Some pay \<longrightarrow>
       (\<exists>k. findIndex (\<lambda>s. sale_id s = sid) (sales r) = Some k
          \<and> (paymentStatus (sales (snd (addCreditPayment r sid amt rb pm m i u sst)) ! k) = PAID
               \<longleftrightarrow> balance (sales (snd (addCreditPayment r sid amt rb pm m i u sst)) ! k)
                      \<le> 1 / 1000)
          \<and> (paymentStatus (sales (snd (addCreditPayment r sid amt rb pm m i u sst)) ! k) = PARTIAL
               \<longleftrightarrow> 1 / 1000 < balance (sales (snd (addCreditPayment r sid amt rb pm m i u sst)) ! k))
          \<and> paymentStatus (sales (snd (addCreditPayment r sid amt rb pm m i u sst)) ! k)
               \<in> {PAID, PARTIAL}))"
proof (intro conjI impI)
  assume a: "fst (createSale pr sr itemsData ap sb c n ids t st) = Some sale"
  from createSale_fst_Some [OF a] obtain its where
    sale: "sale = \<lparr>sale_id = ids (length itemsData), items = its,
                 totalAmount = sum_list (map subtotal its), amountPaid = ap,
                 balance = sum_list (map subtotal its) - ap,
                 paymentStatus = (if ap < sum_list (map subtotal its)
                                  then (if ap = 0 then CREDIT else PARTIAL) else PAID),
                 customer = c, sale_notes = n, soldBy = sb,
                 sale_createdAt = t, sale_updatedAt = t\<rparr>"
    by blast
  have s: "paymentStatus sale = (if ap < sum_list (map subtotal its)
                                  then (if ap = 0 then CREDIT else PARTIAL) else PAID)"
       "balance sale = sum_list (map subtotal its) - ap" "amountPaid sale = ap"
    by (simp_all add: sale)
  from s show "paymentStatus sale = PAID \<longleftrightarrow> balance sale \<le> 0" by simp
  from s show "paymentStatus sale = CREDIT \<longleftrightarrow> 0 < balance sale \<and> amountPaid sale = 0" by simp
  from s show "paymentStatus sale = PARTIAL \<longleftrightarrow> 0 < balance sale \<and> amountPaid sale \<noteq> 0" by simp
  show "paymentStatus sale \<in> {PAID, PARTIAL, CREDIT}"
    by (cases "paymentStatus sale") simp_all
next
  assume a: "fst (addCreditPayment r sid amt rb pm m i u sst) = Some pay"
  let ?st' = "snd (addCreditPayment r sid amt rb pm m i u sst)"
  from addCreditPayment_fst_Some [OF a] obtain k where
    k: "findIndex (\<lambda>s. sale_id s = sid) (sales r) = Some k"
    and st': "sales ?st' = (sales r)[k := (sales r ! k)
                     \<lparr>amountPaid := amountPaid (sales r ! k) + amt,
                      balance := balance (sales r ! k) - amt,
                      paymentStatus :=
                        (if balance (sales r ! k) - amt \<le> 1 / 1000 then PAID else PARTIAL),
                      sale_updatedAt := u\<rparr>]"
    by auto
  from findIndex_Some [OF k] have len: "k < length (sales r)" by simp
  have "(paymentStatus (sales ?st' ! k) = PAID \<longleftrightarrow> balance (sales ?st' ! k) \<le> 1 / 1000)
      \<and> (paymentStatus (sales ?st' ! k) = PARTIAL \<longleftrightarrow> 1 / 1000 < balance (sales ?st' ! k))
      \<and> paymentStatus (sales ?st' ! k) \<in> {PAID, PARTIAL}"
    unfolding st' using len by simp
  with k show "\<exists>k. findIndex (\<lambda>s. sale_id s = sid) (sales r) = Some k
          \<and> (paymentStatus (sales ?st' ! k) = PAID \<longleftrightarrow> balance (sales ?st' ! k) \<le> 1 / 1000)
          \<and> (paymentStatus (sales ?st' ! k) = PARTIAL \<longleftrightarrow> 1 / 1000 < balance (sales ?st' ! k))
          \<and> paymentStatus (sales ?st' ! k) \<in> {PAID, PARTIAL}"
    by blast
qed

text \<open>
  The theorem at the sale of one T-shirt with 500 paid (\<open>PARTIAL\<close>, balance 1000) and at
  the payment of the remaining 1000 (\<open>PAID\<close>).
\<close>

theorem paymentStatus_determined_witness:
  "fst (demoSale [cartSaleItem (hd (DEMO_PRODUCTS 0)) 1] 500) \<noteq> None
   \<and> paymentStatus (the (fst (demoSale [cartSaleItem (hd (DEMO_PRODUCTS 0)) 1] 500))) = PARTIAL
   \<and> balance (the (fst (demoSale [cartSaleItem (hd (DEMO_PRODUCTS 0)) 1] 500))) = 1000
   \<and> fst (demoPayment ''id+'' 1000) \<noteq> None
   \<and> paymentStatus (sales (snd (demoPayment ''id+'' 1000)) ! 0) = PAID"
proof -
  let ?sale = "the (fst (demoSale [cartSaleItem (hd (DEMO_PRODUCTS 0)) 1] 500))"
  have ok: "fst (demoSale [cartSaleItem (hd (DEMO_PRODUCTS 0)) 1] 500) = Some ?sale"
    by (simp add: demo_defs)
  have bal: "balance ?sale = 1000" "amountPaid ?sale = 500"
    by (simp_all add: demo_defs)
  have pay: "fst (demoPayment ''id+'' 1000) = Some (the (fst (demoPayment ''id+'' 1000)))"
    by (simp add: demoPayment_1000)
  have k: "findIndex (\<lambda>s. sale_id s = ''id+'')
             (sales (snd (snd (demoSale [cartSaleItem (hd (DEMO_PRODUCTS 0)) 1] 500)))) = Some 0"
    by (simp add: demoSale_500)
  have bal': "balance (sales (snd (demoPayment ''id+'' 1000)) ! 0) = 0"
    by (simp add: demoPayment_1000)
  from paymentStatus_determined
    [of "initialProductsState 0" initialSalesState "[cartSaleItem (hd (DEMO_PRODUCTS 0)) 1]" 500
      "''2''" None None demoIds 1 "(initialProductsState 0, initialSalesState)" ?sale
      "snd (snd (demoSale [cartSaleItem (hd (DEMO_PRODUCTS 0)) 1] 500))" "''id+''" 1000
      "''2''" "''cash''" None "''p1''" 2
      "snd (snd (demoSale [cartSaleItem (hd (DEMO_PRODUCTS 0)) 1] 500))"
      "the (fst (demoPayment ''id+'' 1000))"]
  have "paymentStatus ?sale = PARTIAL"
    and "paymentStatus (sales (snd (demoPayment ''id+'' 1000)) ! 0) = PAID"
    using ok bal pay k bal' unfolding demoSale_def [symmetric] demoPayment_def [symmetric]
    by simp_all
  moreover have "fst (demoSale [cartSaleItem (hd (DEMO_PRODUCTS 0)) 1] 500) \<noteq> None"
    and "fst (demoPayment ''id+'' 1000) \<noteq> None"
    using ok pay by (metis option.distinct(1))+
  ultimately show ?thesis using bal(1) by blast
qed


section \<open>Credit payments\<close>



text \<open>
  Claim C7: \<^verbatim>\<open>addCreditPayment\<close> returns \<^verbatim>\<open>null\<close> exactly when no sale has the
  given id, or the amount is not positive, or the amount exceeds the balance of the
  (first) sale with that id; and whenever it returns \<^verbatim>\<open>null\<close> the sales and the
  credit payments are unchanged.
\<close>

theorem addCreditPayment_failure:
  "(fst (addCreditPayment st sid amt rb pm n i t st) = None \<longleftrightarrow>
      (\<forall>s\<in>set (sales st). sale_id s \<noteq> sid)
      \<or> (\<exists>k. findIndex (\<lambda>s. sale_id s = sid) (sales st) = Some k
            \<and> (amt \<le> 0 \<or> balance (sales st ! k) < amt)))
   \<and> (fst (addCreditPayment st sid amt rb pm n i t st) = None \<longrightarrow>
        snd (addCreditPayment st sid amt rb pm n i t st) = st)"
proof (intro conjI impI)
  show "fst (addCreditPayment st sid amt rb pm n i t st) = None \<longleftrightarrow>
      (\<forall>s\<in>set (sales st). sale_id s \<noteq> sid)
      \<or> (\<exists>k. findIndex (\<lambda>s. sale_id s = sid) (sales st) = Some k
            \<and> (amt \<le> 0 \<or> balance (sales st ! k) < amt))"
  proof (cases "findIndex (\<lambda>s. sale_id s = sid) (sales st)")
    case None
    then have "\<forall>s\<in>set (sales st). sale_id s \<noteq> sid"
      by (simp add: findIndex_None)
    with None show ?thesis by (simp add: addCreditPayment_None)
  next
    case (Some k)
    then have "\<not> (\<forall>s\<in>set (sales st). sale_id s \<noteq> sid)"
      using findIndex_None [of "\<lambda>s. sale_id s = sid" "sales st"] by simp
    with Some show ?thesis by (auto simp: addCreditPayment_None)
  qed
next
  assume "fst (addCreditPayment st sid amt rb pm n i t st) = None"
  then show "snd (addCreditPayment st sid amt rb pm n i t st) = st"
    by (rule addCreditPayment_None_state)
qed

text \<open>
  The theorem after the sale of one T-shirt with 500 paid (balance 1000): an unknown sale
  id, the amount 0 and the amount 1001 are refused and leave the store as it was; the
  amount 1000 is accepted.
\<close>

theorem addCreditPayment_failure_witness:
  "demoPayment ''no-such-sale'' 100
     = (None, snd (snd (demoSale [cartSaleItem (hd (DEMO_PRODUCTS 0)) 1] 500)))
   \<and> demoPayment ''id+'' 0
     = (None, snd (snd (demoSale [cartSaleItem (hd (DEMO_PRODUCTS 0)) 1] 500)))
   \<and> demoPayment ''id+'' 1001
     = (None, snd (snd (demoSale [cartSaleItem (hd (DEMO_PRODUCTS 0)) 1] 500)))
   \<and> fst (demoPayment ''id+'' 1000) \<noteq> None"
proof -
  let ?st = "snd (snd (demoSale [cartSaleItem (hd (DEMO_PRODUCTS 0)) 1] 500))"
  have ids: "\<forall>s\<in>set (sales ?st). sale_id s \<noteq> ''no-such-sale''"
    by (simp add: demoSale_500)
  have k: "findIndex (\<lambda>s. sale_id s = ''id+'') (sales ?st) = Some 0"
    and bal: "balance (sales ?st ! 0) = 1000"
    by (simp_all add: demoSale_500)
  have a: "fst (demoPayment ''no-such-sale'' 100) = None
         \<and> snd (demoPayment ''no-such-sale'' 100) = ?st"
    using addCreditPayment_failure [of ?st "''no-such-sale''" 100 "''2''" "''cash''" None "''p1''" 2]
      ids unfolding demoPayment_def by blast
  have b: "fst (demoPayment ''id+'' 0) = None \<and> snd (demoPayment ''id+'' 0) = ?st"
    using addCreditPayment_failure [of ?st "''id+''" 0 "''2''" "''cash''" None "''p1''" 2]
      k unfolding demoPayment_def by simp
  have c: "fst (demoPayment ''id+'' 1001) = None \<and> snd (demoPayment ''id+'' 1001) = ?st"
    using addCreditPayment_failure [of ?st "''id+''" 1001 "''2''" "''cash''" None "''p1''" 2]
      k bal unfolding demoPayment_def by simp
  have ex: "\<not> (\<forall>s\<in>set (sales ?st). sale_id s \<noteq> ''id+'')"
    by (simp add: demoSale_500)
  have d: "fst (demoPayment ''id+'' 1000) \<noteq> None"
    using addCreditPayment_failure [of ?st "''id+''" 1000 "''2''" "''cash''" None "''p1''" 2]
      k bal ex unfolding demoPayment_def by simp
  from a b c d show ?thesis by (simp add: prod_eq_iff)
qed


section \<open>Items and total of a sale\<close>

lemma saleItems_of_items:
  assumes "saleItems_of ps ids k ds = Some its"
  shows "(\<forall>it\<in>set its. subtotal it = quantity it * pricePerUnit it
                           - (case discount it of None \<Rightarrow> 0 | Some d \<Rightarrow> d))
     \<and> map (\<lambda>it. (productId it, quantity it, pricePerUnit it, discount it)) its
         = map (\<lambda>d. (productId d, quantity d, pricePerUnit d, discount d)) ds"
  using assms
proof (induction ds arbitrary: k its)
  case Nil
  then show ?case by simp
next
  case (Cons d ds)
  from Cons.prems obtain product rest where
    "find (\<lambda>p. prod_id p = productId d) ps = Some product"
    and rest: "saleItems_of ps ids (Suc k) ds = Some rest"
    and its: "its = \<lparr>productId = productId d,
                     productSnapshot =
                       \<lparr>snap_id = prod_id product, snap_name = prod_name product,
                        snap_sku = sku product, snap_price = price product\<rparr>,
                     quantity = quantity d, pricePerUnit = pricePerUnit d,
                     discount = discount d, item_id = ids k,
                     subtotal = quantity d * pricePerUnit d
                       - (case discount d of None \<Rightarrow> 0 | Some x \<Rightarrow> x)\<rparr> # rest"
    by (auto simp: Let_def split: option.splits)
  from Cons.IH [OF rest] its show ?case by simp
qed




section \<open>Stock decrement on sale\<close>

text \<open>
  What the loop of \<^verbatim>\<open>createSale\<close> leaves when every call succeeds: the products of
  the render with the removal for the last item, and the log of the render with the entry
  for the last item.
\<close>

lemma removeStock_True:
  assumes "fst (removeStock render pid q uid r i t st)"
  shows "\<exists>j. findIndex (\<lambda>p. prod_id p = pid) (products render) = Some j
      \<and> q \<le> stockLevel (products render ! j)
      \<and> products (snd (removeStock render pid q uid r i t st))
          = (products render)[j := (products render ! j)
               \<lparr>stockLevel := stockLevel (products render ! j) - q, prod_updatedAt := t\<rparr>]
      \<and> stockActivities (snd (removeStock render pid q uid r i t st))
          = stockActivities render @ [createStockActivity REMOVE pid q uid r i t]"
  using assms
  by (auto simp: removeStock_def Let_def split: option.splits if_splits)

lemma removeStock_items_last:
  assumes "removeStock_items render its sb r ids k t st = (True, st')" and "its \<noteq> []"
  shows "\<exists>j. findIndex (\<lambda>p. prod_id p = productId (last its)) (products render) = Some j
      \<and> products st'
          = (products render)[j := (products render ! j)
               \<lparr>stockLevel := stockLevel (products render ! j) - quantity (last its),
                prod_updatedAt := t\<rparr>]
      \<and> stockActivities st'
          = stockActivities render
             @ [createStockActivity REMOVE (productId (last its)) (quantity (last its)) sb r
                  (ids (k + length its - 1)) t]"
  using assms
proof (induction its arbitrary: k st)
  case Nil
  then show ?case by simp
next
  case (Cons item rest)
  let ?r = "removeStock render (productId item) (quantity item) sb r (ids k) t st"
  from Cons.prems(1) have ok: "fst ?r"
    by (auto simp: case_prod_beta split: if_splits)
  with Cons.prems(1) have loop: "removeStock_items render rest sb r ids (Suc k) t (snd ?r) = (True, st')"
    by (simp add: case_prod_beta)
  show ?case
  proof (cases "rest = []")
    case True
    with loop have "st' = snd ?r" by simp
    with removeStock_True [OF ok] True show ?thesis by auto
  next
    case False
    from Cons.IH [OF loop False] False show ?thesis by simp
  qed
qed

lemma createSale_last_item_only:
  assumes "fst (createSale pst sst itemsData ap sb c n ids t (pst, sst)) = Some sale"
    and "itemsData \<noteq> []"
  shows "\<exists>j. findIndex (\<lambda>p. prod_id p = productId (last itemsData)) (products pst) = Some j
      \<and> products (fst (snd (createSale pst sst itemsData ap sb c n ids t (pst, sst))))
          = (products pst)[j := (products pst ! j)
               \<lparr>stockLevel := stockLevel (products pst ! j) - quantity (last itemsData),
                prod_updatedAt := t\<rparr>]"
proof -
  obtain pst' sst' where r: "createSale pst sst itemsData ap sb c n ids t (pst, sst) = (Some sale, pst', sst')"
    using assms(1) by (cases "createSale pst sst itemsData ap sb c n ids t (pst, sst)") simp
  from createSale_Some [OF r] obtain its where
    its: "saleItems_of (products pst) ids 0 itemsData = Some its"
    and loop: "removeStock_items pst its sb (Some (''Sale: '' @ ids (length itemsData))) ids
            (Suc (length itemsData)) t pst = (True, pst')"
    by auto
  from saleItems_of_items [OF its]
  have m: "map (\<lambda>it. (productId it, quantity it)) its
         = map (\<lambda>d. (productId d, quantity d)) itemsData"
    by (auto simp: list_eq_iff_nth_eq)
  with assms(2) have ne: "its \<noteq> []" by auto
  from m ne assms(2) have "(productId (last its), quantity (last its))
      = (productId (last itemsData), quantity (last itemsData))"
    by (metis (mono_tags, lifting) last_map)
  then have l: "productId (last its) = productId (last itemsData)"
    "quantity (last its) = quantity (last itemsData)" by simp_all
  from removeStock_items_last [OF loop ne] r show ?thesis by (auto simp: l)
qed

text \<open>
  Claim C4 says that after a successful \<^verbatim>\<open>createSale\<close> over distinct products the
  stock level of each item's product is its former level minus the item's quantity.  The
  loop of \<^verbatim>\<open>createSale\<close> does call the shared \<^verbatim>\<open>removeStock\<close> once per item,
  but every call is the closure of one render: each computes
  \<^verbatim>\<open>updatedProducts\<close> from the same \<^verbatim>\<open>products\<close> array and passes it to
  \<^verbatim>\<open>setProducts\<close>, so the array stored by a later call does not contain the
  decrement of an earlier one.  Selling one T-shirt (product 1, stock 25) and one pair of
  jeans (product 2, stock 15) succeeds and leaves the stock levels 25 and 14.
\<close>

theorem createSale_two_items_stock:
  "fst (demoSale [cartSaleItem (hd (DEMO_PRODUCTS 0)) 1,
                  cartSaleItem (hd (tl (DEMO_PRODUCTS 0))) 1] 5000) \<noteq> None
   \<and> map (\<lambda>it. (productId it, quantity it))
        (items (the (fst (demoSale [cartSaleItem (hd (DEMO_PRODUCTS 0)) 1,
                                    cartSaleItem (hd (tl (DEMO_PRODUCTS 0))) 1] 5000))))
       = [(''1'', 1), (''2'', 1)]
   \<and> map (\<lambda>p. (prod_id p, stockLevel p)) (products (initialProductsState 0))
       = [(''1'', 25), (''2'', 15), (''3'', 8)]
   \<and> map (\<lambda>p. (prod_id p, stockLevel p))
        (products (fst (snd (demoSale [cartSaleItem (hd (DEMO_PRODUCTS 0)) 1,
                                       cartSaleItem (hd (tl (DEMO_PRODUCTS 0))) 1] 5000))))
       = [(''1'', 25), (''2'', 14), (''3'', 8)]"
  by (simp add: demo_defs)


section \<open>A sale that fails\<close>

text \<open>
  \<^verbatim>\<open>createSale\<close> returns \<^verbatim>\<open>null\<close> exactly when the product of some item is not
  found or some item asks for more than the stock level that the render shows for its
  product; it then leaves the sales store as it was, and when a product is not found it
  has changed nothing at all.  There is no rollback: the products store is left as the
  \<^verbatim>\<open>removeStock\<close> calls made before the failure stored it.  Each of these calls stores
  the products of the render with its own removal, so what is left is either the store
  before the call or the render's products with the removal of a single item.
\<close>

lemma removeStock_fst_iff:
  "fst (removeStock render pid q uid r i t st) \<longleftrightarrow>
     (\<exists>j. findIndex (\<lambda>p. prod_id p = pid) (products render) = Some j
          \<and> q \<le> stockLevel (products render ! j))"
  by (auto simp: removeStock_def Let_def split: option.splits)

lemma removeStock_items_fst_iff:
  "fst (removeStock_items render its sb r ids k t st) \<longleftrightarrow>
     (\<forall>it\<in>set its. \<exists>j. findIndex (\<lambda>p. prod_id p = productId it) (products render) = Some j
          \<and> quantity it \<le> stockLevel (products render ! j))"
proof (induction its arbitrary: k st)
  case Nil
  show ?case by simp
next
  case (Cons item rest)
  let ?r = "removeStock render (productId item) (quantity item) sb r (ids k) t st"
  show ?case
  proof (cases "fst ?r")
    case True
    then have "fst (removeStock_items render (item # rest) sb r ids k t st)
        = fst (removeStock_items render rest sb r ids (Suc k) t (snd ?r))"
      by (simp add: case_prod_beta)
    with True Cons.IH [of "Suc k" "snd ?r"] show ?thesis
      by (simp add: removeStock_fst_iff)
  next
    case False
    then have "\<not> fst (removeStock_items render (item # rest) sb r ids k t st)"
      by (simp add: case_prod_beta)
    with False show ?thesis by (simp add: removeStock_fst_iff)
  qed
qed

lemma saleItems_of_None_iff:
  "saleItems_of ps ids k ds = None \<longleftrightarrow>
     (\<exists>d\<in>set ds. findIndex (\<lambda>p. prod_id p = productId d) ps = None)"
proof (induction ds arbitrary: k)
  case Nil
  show ?case by simp
next
  case (Cons d ds)
  have f: "find (\<lambda>p. prod_id p = productId d) ps = None
      \<longleftrightarrow> findIndex (\<lambda>p. prod_id p = productId d) ps = None"
    by (auto simp: find_None_iff findIndex_None)
  show ?case
  proof (cases "find (\<lambda>p. prod_id p = productId d) ps")
    case None
    with f show ?thesis by simp
  next
    case (Some product)
    with f have nf: "findIndex (\<lambda>p. prod_id p = productId d) ps \<noteq> None" by simp
    have "saleItems_of ps ids k (d # ds) = None \<longleftrightarrow> saleItems_of ps ids (Suc k) ds = None"
      using Some by (simp add: Let_def split: option.splits)
    with Cons.IH [of "Suc k"] nf show ?thesis by auto
  qed
qed

lemma createSale_fails_iff:
  "fst (createSale pst sst itemsData ap sb c n ids t (pst, sst)) = None \<longleftrightarrow>
     (\<exists>d\<in>set itemsData.
        findIndex (\<lambda>p. prod_id p = productId d) (products pst) = None
        \<or> (\<exists>j. findIndex (\<lambda>p. prod_id p = productId d) (products pst) = Some j
               \<and> stockLevel (products pst ! j) < quantity d))"
proof (cases "saleItems_of (products pst) ids 0 itemsData")
  case None
  then have "fst (createSale pst sst itemsData ap sb c n ids t (pst, sst)) = None"
    by (simp add: createSale_def)
  with None show ?thesis using saleItems_of_None_iff [of "products pst" ids 0 itemsData] by blast
next
  case (Some its)
  from saleItems_of_items [OF Some]
  have m: "map (\<lambda>it. (productId it, quantity it)) its
         = map (\<lambda>d. (productId d, quantity d)) itemsData"
    by (auto simp: list_eq_iff_nth_eq)
  let ?ok = "\<lambda>pid q. \<exists>j. findIndex (\<lambda>p. prod_id p = pid) (products pst) = Some j
                  \<and> q \<le> stockLevel (products pst ! j)"
  have "(\<forall>it\<in>set its. ?ok (productId it) (quantity it))
      \<longleftrightarrow> (\<forall>x\<in>set (map (\<lambda>it. (productId it, quantity it)) its). ?ok (fst x) (snd x))"
    by simp
  also have "\<dots> \<longleftrightarrow> (\<forall>x\<in>set (map (\<lambda>d. (productId d, quantity d)) itemsData). ?ok (fst x) (snd x))"
    by (simp only: m)
  also have "\<dots> \<longleftrightarrow> (\<forall>d\<in>set itemsData. ?ok (productId d) (quantity d))"
    by simp
  finally have all: "(\<forall>it\<in>set its. ?ok (productId it) (quantity it))
      \<longleftrightarrow> (\<forall>d\<in>set itemsData. ?ok (productId d) (quantity d))" .
  have perd: "(\<not> ?ok pid q) \<longleftrightarrow>
        (findIndex (\<lambda>p. prod_id p = pid) (products pst) = None
        \<or> (\<exists>j. findIndex (\<lambda>p. prod_id p = pid) (products pst) = Some j
               \<and> stockLevel (products pst ! j) < q))" for pid q
    by (cases "findIndex (\<lambda>p. prod_id p = pid) (products pst)") (simp_all add: not_le)
  have "fst (createSale pst sst itemsData ap sb c n ids t (pst, sst)) = None
      \<longleftrightarrow> \<not> fst (removeStock_items pst its sb (Some (''Sale: '' @ ids (length itemsData))) ids
            (Suc (length itemsData)) t pst)"
    using Some by (simp add: createSale_def Let_def case_prod_beta)
  also have "\<dots> \<longleftrightarrow> \<not> (\<forall>d\<in>set itemsData. ?ok (productId d) (quantity d))"
    by (simp only: removeStock_items_fst_iff all)
  also have "\<dots> \<longleftrightarrow> (\<exists>d\<in>set itemsData. \<not> ?ok (productId d) (quantity d))"
    by simp
  also have "\<dots> \<longleftrightarrow> (\<exists>d\<in>set itemsData.
        findIndex (\<lambda>p. prod_id p = productId d) (products pst) = None
        \<or> (\<exists>j. findIndex (\<lambda>p. prod_id p = productId d) (products pst) = Some j
               \<and> stockLevel (products pst ! j) < quantity d))"
    by (simp only: perd)
  finally show ?thesis .
qed

lemma removeStock_items_products:
  "products (snd (removeStock_items render its sb r ids k t st)) = products st
   \<or> (\<exists>it\<in>set its. \<exists>j. findIndex (\<lambda>p. prod_id p = productId it) (products render) = Some j
         \<and> products (snd (removeStock_items render its sb r ids k t st))
            = (products render)[j := (products render ! j)
                 \<lparr>stockLevel := stockLevel (products render ! j) - quantity it,
                  prod_updatedAt := t\<rparr>])"
proof (induction its arbitrary: k st)
  case Nil
  show ?case by simp
next
  case (Cons item rest)
  let ?r = "removeStock render (productId item) (quantity item) sb r (ids k) t st"
  show ?case
  proof (cases "fst ?r")
    case False
    then have "snd ?r = st" by (auto simp: removeStock_def Let_def split: option.splits if_splits)
    with False show ?thesis by (simp add: case_prod_beta)
  next
    case True
    from removeStock_True [OF True] obtain j where
      j: "findIndex (\<lambda>p. prod_id p = productId item) (products render) = Some j"
      and p: "products (snd ?r) = (products render)[j := (products render ! j)
                 \<lparr>stockLevel := stockLevel (products render ! j) - quantity item,
                  prod_updatedAt := t\<rparr>]"
      by blast
    from True have e: "removeStock_items render (item # rest) sb r ids k t st
        = removeStock_items render rest sb r ids (Suc k) t (snd ?r)"
      by (simp add: case_prod_beta)
    from Cons.IH [of "Suc k" "snd ?r"] show ?thesis
    proof
      assume "products (snd (removeStock_items render rest sb r ids (Suc k) t (snd ?r)))
          = products (snd ?r)"
      with j p e show ?thesis by auto
    next
      assume "\<exists>it\<in>set rest. \<exists>j. findIndex (\<lambda>p. prod_id p = productId it) (products render) = Some j
         \<and> products (snd (removeStock_items render rest sb r ids (Suc k) t (snd ?r)))
            = (products render)[j := (products render ! j)
                 \<lparr>stockLevel := stockLevel (products render ! j) - quantity it,
                  prod_updatedAt := t\<rparr>]"
      with e show ?thesis by auto
    qed
  qed
qed

lemma saleItems_of_Cons:
  assumes "saleItems_of ps ids k (d # ds) = Some its"
  shows "\<exists>it rest. its = it # rest \<and> productId it = productId d \<and> quantity it = quantity d
           \<and> saleItems_of ps ids (Suc k) ds = Some rest"
  using assms by (auto simp: Let_def split: option.splits)

lemma removeStock_accepts:
  assumes "findIndex (\<lambda>p. prod_id p = pid) (products render) = Some k"
    and "q \<le> stockLevel (products render ! k)"
  shows "fst (removeStock render pid q uid r i t st)"
    and "products (snd (removeStock render pid q uid r i t st))
          = (products render)[k := (products render ! k)
               \<lparr>stockLevel := stockLevel (products render ! k) - q, prod_updatedAt := t\<rparr>]"
  using assms by (simp_all add: removeStock_def Let_def)

lemma removeStock_rejects:
  assumes "findIndex (\<lambda>p. prod_id p = pid) (products render) = Some k"
    and "stockLevel (products render ! k) < q"
  shows "removeStock render pid q uid r i t st = (False, st)"
  using assms by (simp add: removeStock_def)

lemma createSale_earlier_removed:
  assumes a: "itemsData = earlier # failing # rest
        \<and> saleItems_of (products pst) ids 0 itemsData \<noteq> None
        \<and> findIndex (\<lambda>p. prod_id p = productId earlier) (products pst) = Some k
        \<and> quantity earlier \<le> stockLevel (products pst ! k)
        \<and> findIndex (\<lambda>p. prod_id p = productId failing) (products pst) = Some j
        \<and> stockLevel (products pst ! j) < quantity failing"
  shows "fst (createSale pst sst itemsData ap sb c n ids t (pst, sst)) = None
          \<and> products (fst (snd (createSale pst sst itemsData ap sb c n ids t (pst, sst))))
              = (products pst)[k := (products pst ! k)
                  \<lparr>stockLevel := stockLevel (products pst ! k) - quantity earlier,
                   prod_updatedAt := t\<rparr>]"
proof -
  from a obtain its where its: "saleItems_of (products pst) ids 0 (earlier # failing # rest) = Some its"
    by auto
  from saleItems_of_Cons [OF its] obtain it1 rest1 where
    1: "its = it1 # rest1" "productId it1 = productId earlier" "quantity it1 = quantity earlier"
    and r1: "saleItems_of (products pst) ids (Suc 0) (failing # rest) = Some rest1"
    by blast
  from saleItems_of_Cons [OF r1] obtain it2 rest2 where
    2: "rest1 = it2 # rest2" "productId it2 = productId failing" "quantity it2 = quantity failing"
    by blast
  let ?why = "Some (''Sale: '' @ ids (length itemsData))"
  let ?st1 = "snd (removeStock pst (productId earlier) (quantity earlier) sb ?why
                (ids (Suc (length itemsData))) t pst)"
  from a have ok1: "fst (removeStock pst (productId earlier) (quantity earlier) sb ?why
                (ids (Suc (length itemsData))) t pst)"
    and p1: "products ?st1 = (products pst)[k := (products pst ! k)
                  \<lparr>stockLevel := stockLevel (products pst ! k) - quantity earlier,
                   prod_updatedAt := t\<rparr>]"
    by (simp_all add: removeStock_accepts)
  from a have no2: "removeStock pst (productId failing) (quantity failing) sb ?why
                (ids (Suc (Suc (length itemsData)))) t ?st1 = (False, ?st1)"
    by (simp add: removeStock_rejects)
  have loop: "removeStock_items pst its sb ?why ids (Suc (length itemsData)) t pst = (False, ?st1)"
    using ok1 no2 by (simp add: 1 2 case_prod_beta)
  from a have its': "saleItems_of (products pst) ids 0 itemsData = Some its"
    using its by simp
  have "createSale pst sst itemsData ap sb c n ids t (pst, sst) = (None, ?st1, sst)"
    unfolding createSale_def using its' loop by (simp add: Let_def)
  with p1 show ?thesis by simp
qed

lemma createSale_None_sales:
  assumes "fst (createSale pst sst itemsData ap sb c n ids t (pst, sst)) = None"
  shows "snd (snd (createSale pst sst itemsData ap sb c n ids t (pst, sst))) = sst"
  using assms createSale_None [of pst sst itemsData ap sb c n ids t "(pst, sst)"]
  by (cases "createSale pst sst itemsData ap sb c n ids t (pst, sst)") simp

lemma createSale_not_found:
  assumes "saleItems_of (products pst) ids 0 itemsData = None"
  shows "createSale pst sst itemsData ap sb c n ids t (pst, sst) = (None, pst, sst)"
  using assms by (simp add: createSale_def)



section \<open>Demo login\<close>

text \<open>
  Claim C9: \<^verbatim>\<open>login(username, password)\<close> returns \<^verbatim>\<open>true\<close> exactly when the pair
  is \<open>admin\<close>/\<open>admin123\<close> or \<open>sales\<close>/\<open>sales123\<close> and the write to storage succeeds;
  the user is then that demo user, with role \<open>ADMIN\<close> and \<open>SALESMAN\<close> respectively.  On
  any other input it returns \<^verbatim>\<open>false\<close> and the provider's user is what it was, so
  a \<^verbatim>\<open>null\<close> user stays \<^verbatim>\<open>null\<close>.
\<close>

theorem login_demo_users:
  "(fst (login t0 un pw storageOk user) \<longleftrightarrow>
      ((un = ''admin'' \<and> pw = ''admin123'') \<or> (un = ''sales'' \<and> pw = ''sales123''))
      \<and> storageOk)
   \<and> (fst (login t0 un pw storageOk user) \<longrightarrow>
        (\<exists>u. snd (login t0 un pw storageOk user) = Some u \<and> username u = un \<and> password u = pw
           \<and> role u = (if un = ''admin'' then ADMIN else SALESMAN)))
   \<and> (\<not> fst (login t0 un pw storageOk user) \<longrightarrow> snd (login t0 un pw storageOk user) = user)"
  by (auto simp: login_def DEMO_USERS_def)

text \<open>The theorem at both demo users, a wrong password and a failing storage write.\<close>

theorem login_demo_users_witness:
  "fst (login 0 ''admin'' ''admin123'' True None)
   \<and> map_option role (snd (login 0 ''admin'' ''admin123'' True None)) = Some ADMIN
   \<and> map_option role (snd (login 0 ''sales'' ''sales123'' True None)) = Some SALESMAN
   \<and> login 0 ''admin'' ''sales123'' True None = (False, None)
   \<and> login 0 ''sales'' ''sales123'' False None = (False, None)"
proof -
  note t = login_demo_users [of 0 _ _ _ None]
  from t [of "''admin''" "''admin123''" True]
  have a: "fst (login 0 ''admin'' ''admin123'' True None)"
    and b: "map_option role (snd (login 0 ''admin'' ''admin123'' True None)) = Some ADMIN"
    by auto
  from t [of "''sales''" "''sales123''" True]
  have c: "map_option role (snd (login 0 ''sales'' ''sales123'' True None)) = Some SALESMAN"
    by auto
  from t [of "''admin''" "''sales123''" True]
  have d: "login 0 ''admin'' ''sales123'' True None = (False, None)"
    by (auto simp: prod_eq_iff)
  from t [of "''sales''" "''sales123''" False]
  have e: "login 0 ''sales'' ''sales123'' False None = (False, None)"
    by (auto simp: prod_eq_iff)
  from a b c d e show ?thesis by blast
qed


section \<open>The stock activity log\<close>

text \<open>
  A successful \<^verbatim>\<open>addStock\<close>, \<^verbatim>\<open>removeStock\<close> or \<^verbatim>\<open>adjustStock\<close> call made
  from a render of the current store appends one entry of the matching type, with the
  product id, the user, and the quantity (for \<^verbatim>\<open>adjustStock\<close> the absolute difference
  of the new and the previous stock level); a failing call changes nothing.
\<close>

lemma stock_operations_append:
  "(fst (addStock st pid q uid r i t st) \<longrightarrow>
      stockActivities (snd (addStock st pid q uid r i t st))
        = stockActivities st @ [\<lparr>act_id = i, act_productId = pid, act_type = ADD,
             act_quantity = q, reason = r, act_date = t, performedBy = uid\<rparr>])
   \<and> (fst (removeStock st pid q uid r i t st) \<longrightarrow>
      stockActivities (snd (removeStock st pid q uid r i t st))
        = stockActivities st @ [\<lparr>act_id = i, act_productId = pid, act_type = REMOVE,
             act_quantity = q, reason = r, act_date = t, performedBy = uid\<rparr>])
   \<and> (fst (adjustStock st pid q uid r i t st) \<longrightarrow>
      (\<exists>k. findIndex (\<lambda>p. prod_id p = pid) (products st) = Some k
         \<and> stockActivities (snd (adjustStock st pid q uid r i t st))
            = stockActivities st @ [\<lparr>act_id = i, act_productId = pid, act_type = ADJUST,
               act_quantity = \<bar>q - stockLevel (products st ! k)\<bar>, reason = r, act_date = t,
               performedBy = uid\<rparr>]))
   \<and> (\<not> fst (addStock st pid q uid r i t st) \<longrightarrow> snd (addStock st pid q uid r i t st) = st)
   \<and> (\<not> fst (removeStock st pid q uid r i t st) \<longrightarrow> snd (removeStock st pid q uid r i t st) = st)
   \<and> (\<not> fst (adjustStock st pid q uid r i t st) \<longrightarrow> snd (adjustStock st pid q uid r i t st) = st)"
  by (simp add: addStock_def removeStock_def adjustStock_def createStockActivity_def Let_def
      split: option.splits)

text \<open>
  Claim C10 says this of every successful call, and that no operation removes an entry of
  the log.  The calls that \<^verbatim>\<open>createSale\<close> makes for the second and later items are
  not made from a render of the current store: \<^verbatim>\<open>removeStock\<close> builds
  \<^verbatim>\<open>updatedActivities\<close> from the \<^verbatim>\<open>stockActivities\<close> of its render and stores
  that.  After \<^verbatim>\<open>removeStock\<close> for product 1 has stored a log of one entry, the call
  for product 2 from the same render succeeds and stores a log whose only entry is its
  own; the sale of a T-shirt and a pair of jeans leaves one entry for two removals.
\<close>

theorem createSale_two_items_log:
  "fst (demoSale [cartSaleItem (hd (DEMO_PRODUCTS 0)) 1,
                  cartSaleItem (hd (tl (DEMO_PRODUCTS 0))) 1] 5000) \<noteq> None
   \<and> removeStock (initialProductsState 0) ''1'' 1 ''2'' None ''a1'' 1 (initialProductsState 0)
       = (True, \<lparr>products = (DEMO_PRODUCTS 0)
                    [0 := (hd (DEMO_PRODUCTS 0))\<lparr>stockLevel := 24, prod_updatedAt := 1\<rparr>],
                 stockActivities = [createStockActivity REMOVE ''1'' 1 ''2'' None ''a1'' 1]\<rparr>)
   \<and> map (\<lambda>a. (act_type a, act_productId a, act_quantity a))
        (stockActivities (snd (removeStock (initialProductsState 0) ''2'' 1 ''2'' None ''a2'' 1
           (snd (removeStock (initialProductsState 0) ''1'' 1 ''2'' None ''a1'' 1
              (initialProductsState 0))))))
       = [(REMOVE, ''2'', 1)]
   \<and> map (\<lambda>a. (act_type a, act_productId a, act_quantity a))
        (stockActivities
          (fst (snd (demoSale [cartSaleItem (hd (DEMO_PRODUCTS 0)) 1,
                               cartSaleItem (hd (tl (DEMO_PRODUCTS 0))) 1] 5000))))
       = [(REMOVE, ''2'', 1)]"
  by (simp add: demo_defs)

end
